theory Spec2Isabelle
  imports Complex_Main "HOL-Library.Multiset"
begin

section \<open>Numbers\<close>

text \<open>
  The converters compute with JavaScript numbers. The model computes with exact
  rationals: every finite double is a rational, and rounding, infinities and NaN are
  outside the model except where a definition below writes NaN out explicitly. A
  division whose divisor can be zero in the source is either guarded in the source (and
  the guard is modelled) or excluded by a hypothesis of the theorem that uses it.
\<close>

section \<open>PowerPoint extraction: unit conversion\<close>

text \<open>
  \<^verbatim>\<open>extractMetadata\<close> reads the canvas size from \<^verbatim>\<open><p:sldSz cx=".." cy="..">\<close> and
  converts each raw EMU value with \<^verbatim>\<open>parseInt(..) / 12700\<close>.
\<close>

definition emuToCanvasPx :: "int \<Rightarrow> rat" where
  "emuToCanvasPx e = of_int e / 12700"

text \<open>
  \<^verbatim>\<open>extractElementPosition\<close> converts each raw EMU value of an element's
  \<^verbatim>\<open><a:xfrm>\<close> block with \<^verbatim>\<open>parseInt(..) / 914400 * 96\<close>.
\<close>

definition emuToElementPx :: "int \<Rightarrow> rat" where
  "emuToElementPx e = of_int e / 914400 * 96"

section \<open>PowerPoint conversion: data model\<close>

text \<open>
  The interfaces of the PowerPoint converter, with the fields the modelled functions
  read. A field that TypeScript marks optional, or that the code tests for truthiness,
  is an \<open>option\<close>; \<open>None\<close> is \<^verbatim>\<open>undefined\<close>. Field names carry the
  name of their interface as a prefix, so that the local variables of the modelled
  functions can keep the names they have in the source.
\<close>

record PresentationMetadata =
  md_slideCount :: nat
  md_slideWidth :: rat
  md_slideHeight :: rat

record Position =
  pos_x :: rat
  pos_y :: rat
  pos_width :: rat
  pos_height :: rat

record ElementStyle =
  style_fontSize :: "rat option"
  style_color :: "string option"
  style_textAlign :: "string option"
  style_borderColor :: "string option"
  style_borderWidth :: "rat option"

record TableCell =
  cell_text :: string
  cell_style :: "ElementStyle option"

datatype ElementType = TextType | ImageType | ShapeType | ChartType | TableType

text \<open>
  \<^verbatim>\<open>content: any\<close>: each renderer casts it to the shape it expects. The model keeps the
  fields the renderers read; \<open>content_rows = None\<close> is a content object without \<^verbatim>\<open>rows\<close>, an
  empty \<open>content_src\<close> or \<open>content_alt\<close> is a missing or empty string (both falsy).
\<close>

record ElementContent =
  content_text :: string
  content_style :: "ElementStyle option"
  content_src :: string
  content_alt :: string
  content_rows :: "TableCell list list option"

record SlideElement =
  elem_id :: string
  elem_type :: ElementType
  elem_position :: Position
  elem_zIndex :: "int option"
  elem_content :: ElementContent
  elem_style :: "ElementStyle option"

record SlideData =
  slide_id :: string
  slide_title :: "string option"
  slide_layout :: string
  slide_backgroundColor :: "string option"
  slide_elements :: "SlideElement list"
  slide_hidden :: "bool option"

datatype PageSize = A4 | Letter | Legal | A3 | Custom

datatype Orientation = portrait | landscape

record ConversionSettings =
  quality :: rat
  pageSize :: PageSize
  orientation :: Orientation
  includeHiddenSlides :: bool
  includeImages :: bool
  watermark :: "string option"
  dpi :: rat

text \<open>The initial value of the \<^verbatim>\<open>conversionSettings\<close> state.\<close>

definition initialSettings :: ConversionSettings where
  "initialSettings =
     \<lparr>quality = 3 / 2, pageSize = A4, orientation = landscape,
      includeHiddenSlides = False, includeImages = True, watermark = None, dpi = 150\<rparr>"

section \<open>PowerPoint conversion: page size and scaling\<close>

text \<open>
  \<^verbatim>\<open>presentationData.metadata.slideWidth || 1280\<close>: zero is falsy and takes the
  default.
\<close>

definition orDefault :: "rat \<Rightarrow> rat \<Rightarrow> rat" where
  "orDefault v d = (if v = 0 then d else v)"

text \<open>The \<^verbatim>\<open>switch (conversionSettings.pageSize)\<close> of \<^verbatim>\<open>convertPowerPointToPDF\<close>.\<close>

definition basePdfSize :: "PageSize \<Rightarrow> rat \<Rightarrow> rat \<times> rat" where
  "basePdfSize ps dpiScale =
     (case ps of
        A4 \<Rightarrow> (595 * dpiScale, 842 * dpiScale)
      | Letter \<Rightarrow> (612 * dpiScale, 792 * dpiScale)
      | Legal \<Rightarrow> (612 * dpiScale, 1008 * dpiScale)
      | A3 \<Rightarrow> (842 * dpiScale, 1191 * dpiScale)
      | Custom \<Rightarrow> (842 * dpiScale, 595 * dpiScale))"

text \<open>
  The block "Adjust for orientation":
  \<^verbatim>\<open>if (orientation === 'landscape') [basePdfWidth, basePdfHeight] = [basePdfHeight, basePdfWidth]\<close>.
\<close>

definition orientedBaseSize :: "ConversionSettings \<Rightarrow> rat \<times> rat" where
  "orientedBaseSize cs =
     (let dpiScale = dpi cs / 72;
          (basePdfWidth, basePdfHeight) = basePdfSize (pageSize cs) dpiScale
      in if orientation cs = landscape then (basePdfHeight, basePdfWidth)
         else (basePdfWidth, basePdfHeight))"

text \<open>
  The block "Calculate optimal PDF dimensions that preserve slide aspect ratio", which
  runs on the base size after the orientation block.
\<close>

definition fitPdfSize :: "rat \<Rightarrow> rat \<Rightarrow> rat \<Rightarrow> rat \<times> rat" where
  "fitPdfSize basePdfWidth basePdfHeight slideAspectRatio =
     (let pageAspectRatio = basePdfWidth / basePdfHeight;
          contentMargin = 20
      in if slideAspectRatio > pageAspectRatio then
           (let availableWidth = basePdfWidth - contentMargin * 2;
                scaledHeight = availableWidth / slideAspectRatio
            in if scaledHeight \<le> basePdfHeight - contentMargin * 2
               then (basePdfWidth, scaledHeight + contentMargin * 2)
               else (basePdfWidth, basePdfHeight))
         else
           (let availableHeight = basePdfHeight - contentMargin * 2;
                scaledWidth = availableHeight * slideAspectRatio
            in if scaledWidth \<le> basePdfWidth - contentMargin * 2
               then (scaledWidth + contentMargin * 2, basePdfHeight)
               else (basePdfWidth, basePdfHeight)))"

text \<open>\<open>(pdfWidth, pdfHeight)\<close> as \<^verbatim>\<open>convertPowerPointToPDF\<close> computes them.\<close>

definition pdfDimensions :: "ConversionSettings \<Rightarrow> PresentationMetadata \<Rightarrow> rat \<times> rat" where
  "pdfDimensions cs metadata =
     (let slideWidth = orDefault (md_slideWidth metadata) 1280;
          slideHeight = orDefault (md_slideHeight metadata) 720;
          slideAspectRatio = slideWidth / slideHeight;
          (basePdfWidth, basePdfHeight) = orientedBaseSize cs
      in fitPdfSize basePdfWidth basePdfHeight slideAspectRatio)"

text \<open>
  \<^verbatim>\<open>renderElementToPDF\<close>, up to the dispatch on the element type. The transform it
  computes from the content area and the slide canvas:
\<close>

definition uniformScale :: "rat \<Rightarrow> rat \<Rightarrow> rat \<Rightarrow> rat \<Rightarrow> rat" where
  "uniformScale contentWidth contentHeight slideWidth slideHeight =
     (let scaleX = contentWidth / slideWidth;
          scaleY = contentHeight / slideHeight
      in min scaleX scaleY)"

definition scaledSlideWidth :: "rat \<Rightarrow> rat \<Rightarrow> rat \<Rightarrow> rat \<Rightarrow> rat" where
  "scaledSlideWidth contentWidth contentHeight slideWidth slideHeight =
     slideWidth * uniformScale contentWidth contentHeight slideWidth slideHeight"

definition scaledSlideHeight :: "rat \<Rightarrow> rat \<Rightarrow> rat \<Rightarrow> rat \<Rightarrow> rat" where
  "scaledSlideHeight contentWidth contentHeight slideWidth slideHeight =
     slideHeight * uniformScale contentWidth contentHeight slideWidth slideHeight"

definition offsetX :: "rat \<Rightarrow> rat \<Rightarrow> rat \<Rightarrow> rat \<Rightarrow> rat" where
  "offsetX contentWidth contentHeight slideWidth slideHeight =
     (contentWidth - scaledSlideWidth contentWidth contentHeight slideWidth slideHeight) / 2"

definition offsetY :: "rat \<Rightarrow> rat \<Rightarrow> rat \<Rightarrow> rat \<Rightarrow> rat" where
  "offsetY contentWidth contentHeight slideWidth slideHeight =
     (contentHeight - scaledSlideHeight contentWidth contentHeight slideWidth slideHeight) / 2"

text \<open>
  The call a slide element ends in: the per-type renderer, with the element and the
  box \<open>x y clippedWidth clippedHeight\<close> it is given.
\<close>

datatype RenderCall =
  RenderText SlideElement rat rat rat rat
| RenderImage SlideElement rat rat rat rat
| RenderShape SlideElement rat rat rat rat
| RenderTable SlideElement rat rat rat rat

text \<open>
  \<open>None\<close> where the source returns without calling a renderer: the element lies
  outside the content area, it is an image and images are switched off, or its type
  has no case in the switch (\<^verbatim>\<open>'chart'\<close>).
\<close>

definition renderElementToPDF ::
  "SlideElement \<Rightarrow> rat \<Rightarrow> rat \<Rightarrow> rat \<Rightarrow> rat \<Rightarrow> ConversionSettings \<Rightarrow> rat \<Rightarrow> RenderCall option" where
  "renderElementToPDF element contentWidth contentHeight slideWidth slideHeight cs contentMargin =
     (let scale = uniformScale contentWidth contentHeight slideWidth slideHeight;
          offX = offsetX contentWidth contentHeight slideWidth slideHeight;
          offY = offsetY contentWidth contentHeight slideWidth slideHeight;
          x = contentMargin + offX + pos_x (elem_position element) * scale;
          y = contentMargin + offY + pos_y (elem_position element) * scale;
          width = pos_width (elem_position element) * scale;
          height = pos_height (elem_position element) * scale;
          maxX = contentMargin + contentWidth;
          maxY = contentMargin + contentHeight
      in if x \<ge> maxX \<or> y \<ge> maxY \<or> x + width \<le> contentMargin \<or> y + height \<le> contentMargin
         then None
         else
           (let clippedWidth = min width (maxX - x);
                clippedHeight = min height (maxY - y)
            in case elem_type element of
                 TextType \<Rightarrow> Some (RenderText element x y clippedWidth clippedHeight)
               | ImageType \<Rightarrow>
                   if includeImages cs
                   then Some (RenderImage element x y clippedWidth clippedHeight)
                   else None
               | ShapeType \<Rightarrow> Some (RenderShape element x y clippedWidth clippedHeight)
               | TableType \<Rightarrow> Some (RenderTable element x y clippedWidth clippedHeight)
               | ChartType \<Rightarrow> None))"

section \<open>PowerPoint conversion: paint order\<close>

text \<open>
  \<^verbatim>\<open>[...slide.elements].sort((a, b) => (a.zIndex || 0) - (b.zIndex || 0))\<close>. The sort key
  of an element is \<^verbatim>\<open>zIndex || 0\<close>. \<^verbatim>\<open>Array.prototype.sort\<close> is a stable sort
  (ECMAScript 2019) for a consistent comparator; it is modelled by insertion from the
  right, which places an element before the first one that the comparator does not rank
  before it, and so before the later elements of equal key.
\<close>

definition zKey :: "SlideElement \<Rightarrow> int" where
  "zKey e = (case elem_zIndex e of None \<Rightarrow> 0 | Some z \<Rightarrow> z)"

definition compareZ :: "SlideElement \<Rightarrow> SlideElement \<Rightarrow> int" where
  "compareZ a b = zKey a - zKey b"

fun insertBy :: "('a \<Rightarrow> 'a \<Rightarrow> int) \<Rightarrow> 'a \<Rightarrow> 'a list \<Rightarrow> 'a list" where
  "insertBy cmp a [] = [a]"
| "insertBy cmp a (b # bs) = (if cmp a b \<le> 0 then a # b # bs else b # insertBy cmp a bs)"

fun sortBy :: "('a \<Rightarrow> 'a \<Rightarrow> int) \<Rightarrow> 'a list \<Rightarrow> 'a list" where
  "sortBy cmp [] = []"
| "sortBy cmp (a # as) = insertBy cmp a (sortBy cmp as)"

definition sortedElements :: "SlideData \<Rightarrow> SlideElement list" where
  "sortedElements slide = sortBy compareZ (slide_elements slide)"

text \<open>
  The loop of \<^verbatim>\<open>renderSlideToPDF\<close> over the sorted elements: the renderer calls it
  makes, in the order it makes them.
\<close>

definition renderSlideCalls ::
  "SlideData \<Rightarrow> rat \<Rightarrow> rat \<Rightarrow> rat \<Rightarrow> rat \<Rightarrow> ConversionSettings \<Rightarrow> RenderCall list" where
  "renderSlideCalls slide pdfWidth pdfHeight slideWidth slideHeight cs =
     (let contentMargin = 20;
          contentWidth = pdfWidth - contentMargin * 2;
          contentHeight = pdfHeight - contentMargin * 2
      in List.map_filter
           (\<lambda>element. renderElementToPDF element contentWidth contentHeight
                          slideWidth slideHeight cs contentMargin)
           (sortedElements slide))"

fun callElement :: "RenderCall \<Rightarrow> SlideElement" where
  "callElement (RenderText e x y w h) = e"
| "callElement (RenderImage e x y w h) = e"
| "callElement (RenderShape e x y w h) = e"
| "callElement (RenderTable e x y w h) = e"

fun callBox :: "RenderCall \<Rightarrow> rat \<times> rat \<times> rat \<times> rat" where
  "callBox (RenderText e x y w h) = (x, y, w, h)"
| "callBox (RenderImage e x y w h) = (x, y, w, h)"
| "callBox (RenderShape e x y w h) = (x, y, w, h)"
| "callBox (RenderTable e x y w h) = (x, y, w, h)"

section \<open>Example inputs\<close>

text \<open>
  A 720 x 540 canvas (the fallback size of \<^verbatim>\<open>extractMetadata\<close>), a canvas slightly
  wider than a landscape Legal page, a slide with one text element, and the initial settings
  with the Legal page size.
\<close>

definition exampleMetadata :: PresentationMetadata where
  "exampleMetadata = \<lparr>md_slideCount = 2, md_slideWidth = 720, md_slideHeight = 540\<rparr>"

definition wideMetadata :: PresentationMetadata where
  "wideMetadata = \<lparr>md_slideCount = 1, md_slideWidth = 830, md_slideHeight = 500\<rparr>"

definition exampleTextElement :: SlideElement where
  "exampleTextElement =
     \<lparr>elem_id = ''text-0'', elem_type = TextType,
      elem_position = \<lparr>pos_x = 0, pos_y = 0, pos_width = 400, pos_height = 100\<rparr>,
      elem_zIndex = Some 1,
      elem_content = \<lparr>content_text = ''Hello'', content_style = None, content_src = [],
                      content_alt = [], content_rows = None\<rparr>,
      elem_style = None\<rparr>"

definition exampleSlide :: SlideData where
  "exampleSlide =
     \<lparr>slide_id = ''slide-1'', slide_title = None, slide_layout = ''blank'',
      slide_backgroundColor = Some ''#ffffff'', slide_elements = [exampleTextElement],
      slide_hidden = None\<rparr>"

definition legalSettings :: ConversionSettings where
  "legalSettings = initialSettings\<lparr>pageSize := Legal\<rparr>"

text \<open>A slide with four shapes on three layers, two of them on the same layer.\<close>

definition layerElement :: "string \<Rightarrow> int option \<Rightarrow> SlideElement" where
  "layerElement name z =
     \<lparr>elem_id = name, elem_type = ShapeType,
      elem_position = \<lparr>pos_x = 10, pos_y = 10, pos_width = 100, pos_height = 50\<rparr>,
      elem_zIndex = z,
      elem_content = \<lparr>content_text = [], content_style = None, content_src = [],
                      content_alt = [], content_rows = None\<rparr>,
      elem_style = None\<rparr>"

definition layeredSlide :: SlideData where
  "layeredSlide =
     \<lparr>slide_id = ''slide-1'', slide_title = None, slide_layout = ''blank'',
      slide_backgroundColor = None,
      slide_elements = [layerElement ''a'' (Some 2), layerElement ''b'' (Some 1),
                        layerElement ''c'' (Some 2), layerElement ''d'' None],
      slide_hidden = None\<rparr>"

section \<open>PowerPoint conversion: fallback word wrapping\<close>

text \<open>
  \<^verbatim>\<open>renderTextElement\<close> wraps with the PDF library's \<^verbatim>\<open>splitTextToSize\<close>; when that
  throws, it wraps by hand. The text measure \<^verbatim>\<open>pdf.getTextWidth\<close> is a parameter of
  the model. The inner loop of the hard break counts \<^verbatim>\<open>charCount\<close> up from 1 until the
  prefix of that length is wider than \<^verbatim>\<open>availableWidth\<close> or the word is used up.
\<close>

function scanChars :: "(string \<Rightarrow> rat) \<Rightarrow> rat \<Rightarrow> string \<Rightarrow> nat \<Rightarrow> nat" where
  "scanChars getTextWidth availableWidth remainingWord charCount =
     (if charCount \<le> length remainingWord then
        (if getTextWidth (take charCount remainingWord) > availableWidth then charCount
         else scanChars getTextWidth availableWidth remainingWord (charCount + 1))
      else charCount)"
  by pat_completeness auto
termination
  by (relation "measure (\<lambda>(g, a, r, c). length r + 1 - c)") auto

declare scanChars.simps [simp del]

text \<open>
  \<^verbatim>\<open>remainingWord.substring(0, Math.max(1, charCount - 1))\<close>; \<^verbatim>\<open>substring\<close> stops at the
  end of the string, as \<open>take\<close> does.
\<close>

definition lineToAdd :: "(string \<Rightarrow> rat) \<Rightarrow> rat \<Rightarrow> string \<Rightarrow> string" where
  "lineToAdd getTextWidth availableWidth remainingWord =
     (let charCount = scanChars getTextWidth availableWidth remainingWord 1
      in take (max 1 (charCount - 1)) remainingWord)"

text \<open>
  \<^verbatim>\<open>while (remainingWord.length > 0) { .. lines.push(lineToAdd); remainingWord =
  remainingWord.substring(lineToAdd.length) }\<close>. The function is total: its termination
  proof shows that every iteration shortens \<^verbatim>\<open>remainingWord\<close>.
\<close>

function hardBreak :: "(string \<Rightarrow> rat) \<Rightarrow> rat \<Rightarrow> string \<Rightarrow> string list \<Rightarrow> string list" where
  "hardBreak getTextWidth availableWidth remainingWord lines =
     (if length remainingWord > 0 then
        (let line = lineToAdd getTextWidth availableWidth remainingWord
         in hardBreak getTextWidth availableWidth
              (drop (length line) remainingWord) (lines @ [line]))
      else lines)"
  by pat_completeness auto
termination
proof (relation "measure (\<lambda>(g, a, r, ls). length r)")
  show "wf (measure (\<lambda>(g, a, r, ls). length r))" by simp
next
  fix g :: "string \<Rightarrow> rat" and a :: rat and r :: string and ls :: "string list" and line
  assume nonempty: "0 < length r" and line: "line = lineToAdd g a r"
  from nonempty obtain c cs where "r = c # cs"
    by (cases r) auto
  then have "1 \<le> length line"
    by (simp add: line lineToAdd_def Let_def)
  with nonempty have "length (drop (length line) r) < length r"
    unfolding length_drop by linarith
  then show "((g, a, drop (length line) r, ls @ [line]), (g, a, r, ls))
               \<in> measure (\<lambda>(g, a, r, ls). length r)"
    by simp
qed

declare hardBreak.simps [simp del]

text \<open>
  The loop \<^verbatim>\<open>for (const word of words)\<close> of the fallback, on the state
  \<open>(lines, currentLine)\<close>, and the final \<^verbatim>\<open>if (currentLine) lines.push(currentLine)\<close>.
  A word is hard-broken only when it does not fit and \<^verbatim>\<open>currentLine\<close> is empty.
\<close>

fun wrapLoop ::
  "(string \<Rightarrow> rat) \<Rightarrow> rat \<Rightarrow> string list \<Rightarrow> string list \<Rightarrow> string \<Rightarrow> string list \<times> string" where
  "wrapLoop getTextWidth availableWidth [] lines currentLine = (lines, currentLine)"
| "wrapLoop getTextWidth availableWidth (word # rest) lines currentLine =
     (let testLine = (if currentLine \<noteq> [] then currentLine @ '' '' @ word else word);
          testWidth = getTextWidth testLine
      in if testWidth \<le> availableWidth
         then wrapLoop getTextWidth availableWidth rest lines testLine
         else if currentLine \<noteq> []
         then wrapLoop getTextWidth availableWidth rest (lines @ [currentLine]) word
         else wrapLoop getTextWidth availableWidth rest
                (hardBreak getTextWidth availableWidth word lines) [])"

definition wrapFallback :: "(string \<Rightarrow> rat) \<Rightarrow> rat \<Rightarrow> string list \<Rightarrow> string list" where
  "wrapFallback getTextWidth availableWidth words =
     (case wrapLoop getTextWidth availableWidth words [] [] of
        (lines, currentLine) \<Rightarrow> if currentLine \<noteq> [] then lines @ [currentLine] else lines)"

text \<open>An example measure: six units for every character.\<close>

definition charWidth6 :: "string \<Rightarrow> rat" where
  "charWidth6 s = 6 * of_nat (length s)"

section \<open>Strings\<close>

text \<open>
  A string is the list of its UTF-16 code units, for strings whose code units are all
  below 256. White space is what \<^verbatim>\<open>String.prototype.trim\<close> and \<^verbatim>\<open>parseInt\<close> skip in
  that range: tab, line feed, vertical tab, form feed, carriage return, space and
  no-break space.
\<close>

definition isWhiteSpace :: "char \<Rightarrow> bool" where
  "isWhiteSpace c = (of_char c \<in> set [9, 10, 11, 12, 13, 32, 160 :: nat])"


text \<open>
  \<^verbatim>\<open>parseInt(s, 16)\<close>: skip leading white space, read a sign, skip a \<^verbatim>\<open>0x\<close> prefix, read
  the longest run of hexadecimal digits; \<open>None\<close> is NaN (no digit was read).
\<close>

definition hexDigit :: "char \<Rightarrow> nat option" where
  "hexDigit c =
     (let n = (of_char c :: nat)
      in if 48 \<le> n \<and> n \<le> 57 then Some (n - 48)
         else if 97 \<le> n \<and> n \<le> 102 then Some (n - 87)
         else if 65 \<le> n \<and> n \<le> 70 then Some (n - 55)
         else None)"

fun hexValue :: "nat \<Rightarrow> string \<Rightarrow> nat" where
  "hexValue acc [] = acc"
| "hexValue acc (c # cs) =
     (case hexDigit c of None \<Rightarrow> acc | Some d \<Rightarrow> hexValue (16 * acc + d) cs)"

definition stripHexPrefix :: "string \<Rightarrow> string" where
  "stripHexPrefix s =
     (if take 2 s = ''0x'' \<or> take 2 s = ''0X'' then drop 2 s else s)"

definition parseInt16 :: "string \<Rightarrow> int option" where
  "parseInt16 s =
     (let t = dropWhile isWhiteSpace s;
          (sign, u) = (case t of
                         c # cs \<Rightarrow> if c = CHR ''-'' then (- 1, cs)
                                   else if c = CHR ''+'' then (1, cs) else (1, t)
                       | [] \<Rightarrow> (1, t));
          digits = stripHexPrefix u
      in case digits of
           [] \<Rightarrow> None
         | c # cs \<Rightarrow> (case hexDigit c of
                        None \<Rightarrow> None
                      | Some d \<Rightarrow> Some (sign * int (hexValue 0 digits))))"

section \<open>The PDF surface\<close>

text \<open>
  The drawing calls the converter makes on the PDF library are recorded as a list of
  operations in the order they are made. A colour channel is a number or NaN
  (\<open>None\<close>), since the converter passes the results of \<^verbatim>\<open>parseInt\<close> on.
\<close>

type_synonym channel = "int option"

record Image =
  img_width :: nat
  img_height :: nat

datatype PdfOp =
  SetFillColor channel channel channel
| SetDrawColor channel channel channel
| SetTextColor channel channel channel
| SetFontSize rat
| SetLineWidth rat
| Rect rat rat rat rat string
| Line rat rat rat rat
| Text string rat rat "string option"
| TextAngled string rat rat string rat
| AddImage Image string rat rat rat rat
| SaveGraphicsState
| RestoreGraphicsState
| SetGStateOpacity rat

section \<open>PowerPoint conversion: tables\<close>

text \<open>
  \<^verbatim>\<open>renderTableElement\<close>. The library's \<^verbatim>\<open>splitTextToSize\<close> is a parameter: it is
  given the font size in force, the text and the maximal width. \<open>numOr v d\<close> is
  \<^verbatim>\<open>v || d\<close> on an optional number, \<open>truthyString\<close> the truth value of an optional
  string. The two nested loops are \<open>renderRows\<close> (with \<^verbatim>\<open>rowIndex\<close>) and
  \<open>renderRowCells\<close> (with \<^verbatim>\<open>colIndex\<close>, running to \<^verbatim>\<open>row.cells.length\<close>); the body of
  the inner loop is \<open>renderCell\<close>, and \<open>textLines\<close> is its loop over the wrapped lines
  that fit the row height.
\<close>

definition numOr :: "rat option \<Rightarrow> rat \<Rightarrow> rat" where
  "numOr v d = (case v of None \<Rightarrow> d | Some n \<Rightarrow> if n = 0 then d else n)"

definition truthyString :: "string option \<Rightarrow> bool" where
  "truthyString s = (case s of None \<Rightarrow> False | Some t \<Rightarrow> t \<noteq> [])"


definition hexChannels :: "string \<Rightarrow> channel \<times> channel \<times> channel" where
  "hexChannels color =
     (parseInt16 (take 2 color), parseInt16 (take 2 (drop 2 color)),
      parseInt16 (take 2 (drop 4 color)))"








text \<open>
  Example tables in a 100 x 100 box, with a splitter that never wraps: one whose second
  row has more cells than its first, and a 2 x 2 table.
\<close>

definition noWrap :: "rat \<Rightarrow> string \<Rightarrow> rat \<Rightarrow> string list" where
  "noWrap fontSize s maxWidth = [s]"





section \<open>PowerPoint conversion: images\<close>

text \<open>
  \<^verbatim>\<open>toLowerCase\<close> on the code units below 256, \<^verbatim>\<open>startsWith\<close> and \<^verbatim>\<open>includes\<close>.
\<close>

definition toLowerChar :: "char \<Rightarrow> char" where
  "toLowerChar c =
     (let n = (of_char c :: nat)
      in if (65 \<le> n \<and> n \<le> 90) \<or> (192 \<le> n \<and> n \<le> 222 \<and> n \<noteq> 215)
         then char_of (n + 32) else c)"

definition toLowerCase :: "string \<Rightarrow> string" where
  "toLowerCase s = map toLowerChar s"

fun startsWith :: "string \<Rightarrow> string \<Rightarrow> bool" where
  "startsWith s [] = True"
| "startsWith [] (p # ps) = False"
| "startsWith (c # cs) (p # ps) = (c = p \<and> startsWith cs ps)"

fun includesStr :: "string \<Rightarrow> string \<Rightarrow> bool" where
  "includesStr [] sub = (sub = [])"
| "includesStr (c # cs) sub = (startsWith (c # cs) sub \<or> includesStr cs sub)"

text \<open>
  \<^verbatim>\<open>loadImageWithTimeout\<close> returns a promise that is settled by whichever runs first:
  \<^verbatim>\<open>img.onload\<close> (resolve), \<^verbatim>\<open>img.onerror\<close> (reject "Image load failed") or the timer
  (reject "Image load timeout"); later calls have no effect. What the browser does with
  a source is the environment of the model: it loads or fails a number of milliseconds
  after the source is assigned, or does neither. An event that is not strictly earlier
  than the timer is taken to lose against it. \<open>Inl\<close> is a rejection with its message.
\<close>

datatype LoadBehaviour = LoadsAt nat Image | FailsAt nat | NeverSettles

definition loadImageWithTimeout ::
  "(string \<Rightarrow> LoadBehaviour) \<Rightarrow> string \<Rightarrow> nat \<Rightarrow> string + Image" where
  "loadImageWithTimeout env src timeout =
     (case env src of
        LoadsAt t img \<Rightarrow> if t < timeout then Inr img else Inl ''Image load timeout''
      | FailsAt t \<Rightarrow> if t < timeout then Inl ''Image load failed'' else Inl ''Image load timeout''
      | NeverSettles \<Rightarrow> Inl ''Image load timeout'')"

text \<open>
  \<^verbatim>\<open>renderImagePlaceholder\<close>. \<^verbatim>\<open>pdf.getFontSize()\<close> is the size just set. The loop over
  the wrapped lines draws a line only while \<^verbatim>\<open>i < 3\<close> and only if
  \<^verbatim>\<open>lineY < y + height - 5\<close>.
\<close>

fun placeholderLines ::
  "string list \<Rightarrow> nat \<Rightarrow> rat \<Rightarrow> rat \<Rightarrow> rat \<Rightarrow> rat \<Rightarrow> rat \<Rightarrow> rat \<Rightarrow> PdfOp list" where
  "placeholderLines [] i textStartY lineHeight x y width height = []"
| "placeholderLines (l # ls) i textStartY lineHeight x y width height =
     (if i < 3 then
        (let lineY = textStartY + of_nat i * lineHeight
         in (if lineY < y + height - 5 then [Text l (x + width / 2) lineY (Some ''center'')]
             else [])
            @ placeholderLines ls (i + 1) textStartY lineHeight x y width height)
      else [])"

definition renderImagePlaceholder ::
  "(rat \<Rightarrow> string \<Rightarrow> rat \<Rightarrow> string list) \<Rightarrow> rat \<Rightarrow> rat \<Rightarrow> rat \<Rightarrow> rat \<Rightarrow> string \<Rightarrow> PdfOp list" where
  "renderImagePlaceholder splitTextToSize x y width height message =
     (let iconSize = min width height * (3 / 10);
          iconX = x + (width - iconSize) / 2;
          iconY = y + (height - iconSize) / 2;
          fontSize = max 8 (min 12 (width / 15));
          lines = splitTextToSize fontSize message (width - 10);
          lineHeight = fontSize * (6 / 5);
          textStartY = iconY + iconSize + lineHeight
      in [SetFillColor (Some 248) (Some 249) (Some 250),
          SetDrawColor (Some 220) (Some 220) (Some 220),
          SetLineWidth 1,
          Rect x y width height ''FD'',
          SetDrawColor (Some 200) (Some 200) (Some 200),
          SetLineWidth (1 / 2),
          Line x y (x + width) (y + height),
          Line (x + width) y x (y + height),
          SetFillColor (Some 220) (Some 220) (Some 220),
          Rect iconX iconY iconSize (iconSize * (7 / 10)) ''F'',
          SetTextColor (Some 120) (Some 120) (Some 120),
          SetFontSize fontSize]
         @ placeholderLines lines 0 textStartY lineHeight x y width height)"

text \<open>
  The \<^verbatim>\<open>try\<close> block of \<^verbatim>\<open>renderImageElement\<close>: \<open>Inl\<close> is an exception that leaves the
  block, \<open>Inr\<close> the operations of a normal end (including the \<^verbatim>\<open>return\<close> after the
  "Image format not supported" placeholder). Whether \<^verbatim>\<open>pdf.addImage\<close> accepts an image
  in a format is a parameter. \<open>imageBox\<close> is the fitting of the image into the element's
  box; where the source divides by a \<^verbatim>\<open>height\<close> of zero, the two comparisons are written
  out as JavaScript evaluates them on an infinite or undefined ratio.
\<close>

definition imageFormat :: "string \<Rightarrow> string" where
  "imageFormat contentSrc =
     (let src = toLowerCase contentSrc
      in if includesStr src ''.png'' \<or> includesStr src ''data:image/png'' then ''PNG''
         else if includesStr src ''.webp'' then ''WEBP''
         else if includesStr src ''.gif'' then ''GIF''
         else ''JPEG'')"

definition imageBox :: "Image \<Rightarrow> rat \<Rightarrow> rat \<Rightarrow> rat \<Rightarrow> rat \<Rightarrow> rat \<times> rat \<times> rat \<times> rat" where
  "imageBox img x y width height =
     (let imgAspectRatio = of_nat (img_width img) / of_nat (img_height img);
          differ = (if height = 0 then width \<noteq> 0
                    else \<bar>imgAspectRatio - width / height\<bar> > 1 / 100);
          imgWider = (if height = 0 then width < 0 else imgAspectRatio > width / height);
          (renderWidth, renderHeight, renderX, renderY) =
            (if differ then
               (if imgWider
                then (width, width / imgAspectRatio, x, y + (height - width / imgAspectRatio) / 2)
                else (height * imgAspectRatio, height,
                      x + (width - height * imgAspectRatio) / 2, y))
             else (width, height, x, y));
          renderWidth = max 1 (min renderWidth width);
          renderHeight = max 1 (min renderHeight height);
          renderX = max x (min renderX (x + width - renderWidth));
          renderY = max y (min renderY (y + height - renderHeight))
      in (renderX, renderY, renderWidth, renderHeight))"

definition imageBorder :: "ElementStyle option \<Rightarrow> rat \<Rightarrow> rat \<Rightarrow> rat \<Rightarrow> rat \<Rightarrow> PdfOp list" where
  "imageBorder st renderX renderY renderWidth renderHeight =
     (case st of
        None \<Rightarrow> []
      | Some s \<Rightarrow>
          if numOr (style_borderWidth s) 0 \<noteq> 0 \<and> truthyString (style_borderColor s) then
            (let borderColor = remove1 CHR ''#'' (the (style_borderColor s))
             in if length borderColor = 6 then
                  (case hexChannels borderColor of
                     (r, g, b) \<Rightarrow>
                       [SetDrawColor r g b, SetLineWidth (the (style_borderWidth s)),
                        Rect renderX renderY renderWidth renderHeight ''D''])
                else [])
          else [])"

definition imageTryBlock ::
  "(string \<Rightarrow> LoadBehaviour) \<Rightarrow> (Image \<Rightarrow> string \<Rightarrow> bool)
     \<Rightarrow> (rat \<Rightarrow> string \<Rightarrow> rat \<Rightarrow> string list)
     \<Rightarrow> SlideElement \<Rightarrow> rat \<Rightarrow> rat \<Rightarrow> rat \<Rightarrow> rat \<Rightarrow> string + PdfOp list" where
  "imageTryBlock env addImageSucceeds splitTextToSize element x y width height =
     (case loadImageWithTimeout env (content_src (elem_content element)) 10000 of
        Inl err \<Rightarrow> Inl err
      | Inr img \<Rightarrow>
          if img_width img = 0 \<or> img_height img = 0 then Inl ''Invalid image dimensions''
          else
            (case imageBox img x y width height of
               (renderX, renderY, renderWidth, renderHeight) \<Rightarrow>
                 (let fmt = imageFormat (content_src (elem_content element));
                      border = imageBorder (elem_style element) renderX renderY renderWidth renderHeight
                  in if addImageSucceeds img fmt
                     then Inr (AddImage img fmt renderX renderY renderWidth renderHeight # border)
                     else if addImageSucceeds img ''JPEG''
                     then Inr (AddImage img ''JPEG'' renderX renderY renderWidth renderHeight # border)
                     else Inr (renderImagePlaceholder splitTextToSize x y width height
                                 ''Image format not supported''))))"

text \<open>
  \<^verbatim>\<open>renderImageElement\<close>: the early return for a missing source, and the \<^verbatim>\<open>catch\<close> that
  turns every exception of the \<^verbatim>\<open>try\<close> block into the placeholder with the message
  \<^verbatim>\<open>content.alt || 'Image failed to load'\<close>.
\<close>

definition renderImageElement ::
  "(string \<Rightarrow> LoadBehaviour) \<Rightarrow> (Image \<Rightarrow> string \<Rightarrow> bool)
     \<Rightarrow> (rat \<Rightarrow> string \<Rightarrow> rat \<Rightarrow> string list)
     \<Rightarrow> SlideElement \<Rightarrow> rat \<Rightarrow> rat \<Rightarrow> rat \<Rightarrow> rat \<Rightarrow> string + PdfOp list" where
  "renderImageElement env addImageSucceeds splitTextToSize element x y width height =
     (if content_src (elem_content element) = [] then
        Inr (renderImagePlaceholder splitTextToSize x y width height ''No image source'')
      else
        (case imageTryBlock env addImageSucceeds splitTextToSize element x y width height of
           Inr ops \<Rightarrow> Inr ops
         | Inl err \<Rightarrow>
             Inr (renderImagePlaceholder splitTextToSize x y width height
                    (if content_alt (elem_content element) \<noteq> []
                     then content_alt (elem_content element)
                     else ''Image failed to load''))))"

text \<open>
  The texts among a list of operations, in order, and what it means for an operation to
  lie inside a box: a rectangle with its corners, a line with its end points, a text
  with its anchor.
\<close>

fun textOf :: "PdfOp \<Rightarrow> string option" where
  "textOf (Text s x y a) = Some s"
| "textOf _ = None"

definition textsOf :: "PdfOp list \<Rightarrow> string list" where
  "textsOf ops = List.map_filter textOf ops"

fun opInBox :: "rat \<Rightarrow> rat \<Rightarrow> rat \<Rightarrow> rat \<Rightarrow> PdfOp \<Rightarrow> bool" where
  "opInBox x y width height (Rect rx ry rw rh st) =
     (x \<le> rx \<and> y \<le> ry \<and> 0 \<le> rw \<and> 0 \<le> rh \<and> rx + rw \<le> x + width \<and> ry + rh \<le> y + height)"
| "opInBox x y width height (Line x1 y1 x2 y2) =
     (x \<le> x1 \<and> x1 \<le> x + width \<and> y \<le> y1 \<and> y1 \<le> y + height
      \<and> x \<le> x2 \<and> x2 \<le> x + width \<and> y \<le> y2 \<and> y2 \<le> y + height)"
| "opInBox x y width height (Text s tx ty a) =
     (x \<le> tx \<and> tx \<le> x + width \<and> y \<le> ty \<and> ty \<le> y + height)"
| "opInBox x y width height _ = True"

text \<open>
  An image element in a 200 x 100 box, an environment in which no image ever loads, and
  a PDF library that accepts every format.
\<close>

definition imageElement :: "string \<Rightarrow> string \<Rightarrow> SlideElement" where
  "imageElement s a =
     \<lparr>elem_id = ''image-0'', elem_type = ImageType,
      elem_position = \<lparr>pos_x = 0, pos_y = 0, pos_width = 200, pos_height = 100\<rparr>,
      elem_zIndex = Some 1,
      elem_content = \<lparr>content_text = [], content_style = None, content_src = s,
                      content_alt = a, content_rows = None\<rparr>,
      elem_style = None\<rparr>"

definition neverLoads :: "string \<Rightarrow> LoadBehaviour" where
  "neverLoads s = NeverSettles"

definition anyFormat :: "Image \<Rightarrow> string \<Rightarrow> bool" where
  "anyFormat img fmt = True"

section \<open>PowerPoint conversion: slides and pages\<close>

text \<open>The decimal digits of a number, as a template literal prints it.\<close>

function showNat :: "nat \<Rightarrow> string" where
  "showNat n = (if n < 10 then [char_of (48 + n)] else showNat (n div 10) @ [char_of (48 + n mod 10)])"
  by pat_completeness auto
termination
  by (relation "measure id") auto

declare showNat.simps [simp del]

text \<open>
  The loop of \<^verbatim>\<open>extractPresentationData\<close> over the sorted slide files. Two calls of
  each iteration can throw, and both are parameters: \<^verbatim>\<open>zip.files[slideFile].asText()\<close>,
  which reads the text of the entry, and \<^verbatim>\<open>parseSlideXml\<close>, which is given that text,
  the file name and the slide number. \<open>Inl\<close> is the exception thrown, \<open>Inr\<close> the value
  returned. The read stands before the \<^verbatim>\<open>try\<close>: when it throws, the loop is left and
  \<^verbatim>\<open>extractPresentationData\<close> rejects. \<open>extractSlide\<close> is the \<^verbatim>\<open>try\<close> statement: the
  \<^verbatim>\<open>try\<close> pushes the parsed slide, the \<^verbatim>\<open>catch\<close> pushes the fallback slide with its
  one text element.
\<close>

definition fallbackSlide :: "nat \<Rightarrow> SlideData" where
  "fallbackSlide slideNumber =
     \<lparr>slide_id = ''slide-'' @ showNat slideNumber,
      slide_title = Some (''Slide '' @ showNat slideNumber),
      slide_layout = ''blank'',
      slide_backgroundColor = None,
      slide_elements =
        [\<lparr>elem_id = ''error-text'', elem_type = TextType,
          elem_position = \<lparr>pos_x = 50, pos_y = 200, pos_width = 620, pos_height = 100\<rparr>,
          elem_zIndex = Some 1,
          elem_content = \<lparr>content_text = ''Error loading slide content'', content_style = None,
                          content_src = [], content_alt = [], content_rows = None\<rparr>,
          elem_style = Some \<lparr>style_fontSize = Some 24, style_color = Some ''#ff0000'',
                             style_textAlign = Some ''center'', style_borderColor = None,
                             style_borderWidth = None\<rparr>\<rparr>],
      slide_hidden = None\<rparr>"

definition extractSlide ::
  "(string \<Rightarrow> string \<Rightarrow> nat \<Rightarrow> string + SlideData) \<Rightarrow> nat \<Rightarrow> string \<Rightarrow> string \<Rightarrow> SlideData" where
  "extractSlide parseSlideXml i slideXml slideFile =
     (case parseSlideXml slideXml slideFile (i + 1) of
        Inr slideData \<Rightarrow> slideData
      | Inl err \<Rightarrow> fallbackSlide (i + 1))"

fun extractSlides ::
  "(string \<Rightarrow> string + string) \<Rightarrow> (string \<Rightarrow> string \<Rightarrow> nat \<Rightarrow> string + SlideData)
     \<Rightarrow> string list \<Rightarrow> nat \<Rightarrow> SlideData list \<Rightarrow> string + SlideData list" where
  "extractSlides asText parseSlideXml [] i slides = Inr slides"
| "extractSlides asText parseSlideXml (slideFile # rest) i slides =
     (case asText slideFile of
        Inl err \<Rightarrow> Inl err
      | Inr slideXml \<Rightarrow>
          extractSlides asText parseSlideXml rest (i + 1)
            (slides @ [extractSlide parseSlideXml i slideXml slideFile]))"

text \<open>
  What \<^verbatim>\<open>processFileChunk\<close> keeps for the file: the extracted slides, or, when the
  extraction rejects, the empty list the entry was created with (the entry is marked as
  an error).
\<close>

definition storedSlides :: "string + SlideData list \<Rightarrow> SlideData list" where
  "storedSlides extraction = (case extraction of Inr slides \<Rightarrow> slides | Inl err \<Rightarrow> [])"

text \<open>
  The PDF document under construction: the pages that are finished and the current
  page, each the list of operations drawn on it. The constructor of the PDF library
  creates the document with a first, empty page (the converter relies on it: it adds a
  page only for \<^verbatim>\<open>slideIndex > 0\<close>); \<^verbatim>\<open>addPage\<close> starts a new current page.
\<close>

record PdfDoc =
  finishedPages :: "PdfOp list list"
  currentPage :: "PdfOp list"

definition newPdf :: PdfDoc where
  "newPdf = \<lparr>finishedPages = [], currentPage = []\<rparr>"

definition addPage :: "PdfDoc \<Rightarrow> PdfDoc" where
  "addPage pdf = \<lparr>finishedPages = finishedPages pdf @ [currentPage pdf], currentPage = []\<rparr>"

definition draw :: "PdfOp list \<Rightarrow> PdfDoc \<Rightarrow> PdfDoc" where
  "draw ops pdf = pdf\<lparr>currentPage := currentPage pdf @ ops\<rparr>"

definition pagesOf :: "PdfDoc \<Rightarrow> PdfOp list list" where
  "pagesOf pdf = finishedPages pdf @ [currentPage pdf]"

text \<open>
  The body of the slide loop of \<^verbatim>\<open>convertPowerPointToPDF\<close>. \<^verbatim>\<open>renderSlideToPDF\<close> as a
  whole is a parameter: the operations it has drawn on the current page when it ends,
  and whether it ended by throwing. When it throws, the \<^verbatim>\<open>catch\<close> draws the error
  placeholder over what is on the page; when it returns, \<^verbatim>\<open>addWatermark\<close> is called if a
  watermark is set. \<^verbatim>\<open>addWatermark\<close> makes six calls inside its own \<^verbatim>\<open>try\<close>, whose
  \<^verbatim>\<open>catch\<close> only logs: if one of them throws, the calls before it have been made and
  the rest are skipped. How many of the six calls complete is a parameter,
  \<open>watermarkCalls\<close> (6 when none throws). The drawing calls of the \<^verbatim>\<open>catch\<close> block of
  the slide loop are taken not to throw. Progress reporting and the pause between chunks
  have no effect on the document and are left out.
\<close>

definition errorPlaceholder :: "nat \<Rightarrow> rat \<Rightarrow> rat \<Rightarrow> PdfOp list" where
  "errorPlaceholder slideIndex pdfWidth pdfHeight =
     [SetFillColor (Some 245) (Some 245) (Some 245),
      Rect 0 0 pdfWidth pdfHeight ''F'',
      SetTextColor (Some 100) (Some 100) (Some 100),
      SetFontSize 16,
      Text (''Error rendering slide '' @ showNat (slideIndex + 1))
        (pdfWidth / 2) (pdfHeight / 2) (Some ''center'')]"

definition addWatermark :: "nat \<Rightarrow> string \<Rightarrow> rat \<Rightarrow> rat \<Rightarrow> PdfOp list" where
  "addWatermark watermarkCalls watermarkText pdfWidth pdfHeight =
     take watermarkCalls
     [SaveGraphicsState, SetGStateOpacity (1 / 10),
      SetTextColor (Some 128) (Some 128) (Some 128), SetFontSize 48,
      TextAngled watermarkText (pdfWidth / 2) (pdfHeight / 2) ''center'' 45,
      RestoreGraphicsState]"

definition slideOps ::
  "(SlideData \<Rightarrow> PdfOp list \<times> bool) \<Rightarrow> nat \<Rightarrow> ConversionSettings \<Rightarrow> rat \<Rightarrow> rat
     \<Rightarrow> nat \<Rightarrow> SlideData \<Rightarrow> PdfOp list" where
  "slideOps renderSlideToPDF watermarkCalls cs pdfWidth pdfHeight slideIndex slide =
     (case renderSlideToPDF slide of
        (ops, threw) \<Rightarrow>
          if threw then ops @ errorPlaceholder slideIndex pdfWidth pdfHeight
          else if truthyString (watermark cs)
          then ops @ addWatermark watermarkCalls (the (watermark cs)) pdfWidth pdfHeight
          else ops)"

definition processSlide ::
  "(SlideData \<Rightarrow> PdfOp list \<times> bool) \<Rightarrow> nat \<Rightarrow> ConversionSettings \<Rightarrow> rat \<Rightarrow> rat
     \<Rightarrow> PdfDoc \<Rightarrow> nat \<Rightarrow> SlideData \<Rightarrow> PdfDoc" where
  "processSlide renderSlideToPDF watermarkCalls cs pdfWidth pdfHeight pdf slideIndex slide =
     draw (slideOps renderSlideToPDF watermarkCalls cs pdfWidth pdfHeight slideIndex slide)
       (if slideIndex > 0 then addPage pdf else pdf)"

text \<open>
  The inner loop over one chunk (\<^verbatim>\<open>slideIndex = chunkStart + i\<close>) and the outer loop
  over the chunks of five slides (\<^verbatim>\<open>slice\<close> is \<^verbatim>\<open>Array.prototype.slice\<close> for indices that
  are in range).
\<close>

fun processChunk ::
  "(SlideData \<Rightarrow> PdfOp list \<times> bool) \<Rightarrow> nat \<Rightarrow> ConversionSettings \<Rightarrow> rat \<Rightarrow> rat
     \<Rightarrow> PdfDoc \<Rightarrow> nat \<Rightarrow> nat \<Rightarrow> SlideData list \<Rightarrow> PdfDoc" where
  "processChunk renderSlideToPDF watermarkCalls cs pdfWidth pdfHeight pdf chunkStart i [] = pdf"
| "processChunk renderSlideToPDF watermarkCalls cs pdfWidth pdfHeight pdf chunkStart i (slide # rest) =
     processChunk renderSlideToPDF watermarkCalls cs pdfWidth pdfHeight
       (processSlide renderSlideToPDF watermarkCalls cs pdfWidth pdfHeight pdf (chunkStart + i) slide)
       chunkStart (i + 1) rest"

definition slice :: "'a list \<Rightarrow> nat \<Rightarrow> nat \<Rightarrow> 'a list" where
  "slice xs start endIndex = take (endIndex - start) (drop start xs)"

function processChunks ::
  "(SlideData \<Rightarrow> PdfOp list \<times> bool) \<Rightarrow> nat \<Rightarrow> ConversionSettings \<Rightarrow> rat \<Rightarrow> rat
     \<Rightarrow> SlideData list \<Rightarrow> PdfDoc \<Rightarrow> nat \<Rightarrow> PdfDoc" where
  "processChunks renderSlideToPDF watermarkCalls cs pdfWidth pdfHeight slidesToProcess pdf chunkStart =
     (let totalSlides = length slidesToProcess; chunkSize = 5
      in if chunkStart < totalSlides then
           (let chunkEnd = min (chunkStart + chunkSize) totalSlides;
                chunk = slice slidesToProcess chunkStart chunkEnd
            in processChunks renderSlideToPDF watermarkCalls cs pdfWidth pdfHeight slidesToProcess
                 (processChunk renderSlideToPDF watermarkCalls cs pdfWidth pdfHeight pdf chunkStart 0 chunk)
                 (chunkStart + chunkSize))
         else pdf)"
  by pat_completeness auto
termination
  by (relation "measure (\<lambda>(r, n, cs, w, h, slides, pdf, chunkStart). length slides - chunkStart)")
     auto

declare processChunks.simps [simp del]

text \<open>
  The filter on hidden slides, and the conversion up to the finished document: \<open>Inl\<close> is
  the exception "No presentation data available".
\<close>

definition slidesToProcess :: "ConversionSettings \<Rightarrow> SlideData list \<Rightarrow> SlideData list" where
  "slidesToProcess cs slides =
     filter (\<lambda>slide. includeHiddenSlides cs \<or> slide_hidden slide \<noteq> Some True) slides"

definition convertPowerPointToPDF ::
  "(SlideData \<Rightarrow> PdfOp list \<times> bool) \<Rightarrow> nat \<Rightarrow> ConversionSettings
     \<Rightarrow> (SlideData list \<times> PresentationMetadata) option \<Rightarrow> string + PdfDoc" where
  "convertPowerPointToPDF renderSlideToPDF watermarkCalls cs presentationData =
     (case presentationData of
        None \<Rightarrow> Inl ''No presentation data available''
      | Some (slides, metadata) \<Rightarrow>
          if slides = [] then Inl ''No presentation data available''
          else
            (case pdfDimensions cs metadata of
               (pdfWidth, pdfHeight) \<Rightarrow>
                 Inr (processChunks renderSlideToPDF watermarkCalls cs pdfWidth pdfHeight
                        (slidesToProcess cs slides) newPdf 0)))"

text \<open>
  A deck of ten slide files, with two ways for the seventh to fail: its text cannot be
  read, or its text is read and cannot be parsed. A renderer that draws the slide's id
  and throws on the third slide.
\<close>

definition blankSlide :: "nat \<Rightarrow> SlideData" where
  "blankSlide n =
     \<lparr>slide_id = ''slide-'' @ showNat n, slide_title = None, slide_layout = ''blank'',
      slide_backgroundColor = Some ''#ffffff'', slide_elements = [], slide_hidden = None\<rparr>"

definition tenFiles :: "string list" where
  "tenFiles = map (\<lambda>n. ''ppt/slides/slide'' @ showNat n @ ''.xml'') [1..<11]"

definition readAll :: "string \<Rightarrow> string + string" where
  "readAll slideFile = Inr ''<p:sld/>''"



definition parseAllButSeven :: "string \<Rightarrow> string \<Rightarrow> nat \<Rightarrow> string + SlideData" where
  "parseAllButSeven slideXml slideFile slideNumber =
     (if slideNumber = 7 then Inl ''malformed slide'' else Inr (blankSlide slideNumber))"

definition renderAllButThree :: "SlideData \<Rightarrow> PdfOp list \<times> bool" where
  "renderAllButThree slide = ([Text (slide_id slide) 0 0 None], slide_id slide = ''slide-3'')"

section \<open>Word conversion: text styles\<close>

text \<open>
  The \<^verbatim>\<open>TextStyle\<close> interface of the Word converter. A colour channel is a number or
  NaN (\<open>None\<close>), since \<^verbatim>\<open>parseColor\<close> divides the result of \<^verbatim>\<open>parseInt\<close>. For the
  optional fields \<open>None\<close> is \<^verbatim>\<open>undefined\<close>; for the two optional numbers it is also NaN,
  which the merge treats alike.
\<close>

record Color =
  col_r :: "rat option"
  col_g :: "rat option"
  col_b :: "rat option"

record TextStyle =
  ts_bold :: bool
  ts_italic :: bool
  ts_underline :: bool
  ts_color :: Color
  ts_fontSize :: rat
  ts_fontFamily :: string
  ts_strikethrough :: "bool option"
  ts_highlight :: "Color option"
  ts_subscript :: "bool option"
  ts_superscript :: "bool option"
  ts_lineHeight :: "rat option"
  ts_letterSpacing :: "rat option"
  ts_textAlign :: "string option"

text \<open>
  \<^verbatim>\<open>parseColor\<close>, branch by branch: the empty string, \<^verbatim>\<open>#rgb\<close> and \<^verbatim>\<open>#rrggbb\<close>, the
  \<^verbatim>\<open>rgb(..)\<close> notation, the table of named colours, and black for everything else.
\<close>

definition rgbColor :: "rat \<Rightarrow> rat \<Rightarrow> rat \<Rightarrow> Color" where
  "rgbColor red green blue = \<lparr>col_r = Some red, col_g = Some green, col_b = Some blue\<rparr>"

definition hexChannel :: "string \<Rightarrow> rat option" where
  "hexChannel digits = map_option (\<lambda>n. of_int n / 255) (parseInt16 digits)"

definition parseHexColor :: "string \<Rightarrow> Color option" where
  "parseHexColor colorStr =
     (if startsWith colorStr ''#'' then
        (let hex = drop 1 colorStr
         in if length hex = 3 then
              Some \<lparr>col_r = hexChannel [hex ! 0, hex ! 0],
                    col_g = hexChannel [hex ! 1, hex ! 1],
                    col_b = hexChannel [hex ! 2, hex ! 2]\<rparr>
            else if length hex = 6 then
              Some \<lparr>col_r = hexChannel (take 2 hex),
                    col_g = hexChannel (take 2 (drop 2 hex)),
                    col_b = hexChannel (take 2 (drop 4 hex))\<rparr>
            else None)
      else None)"

text \<open>
  \<^verbatim>\<open>colorStr.match(/rgb\((\d+),\s*(\d+),\s*(\d+)\)/)\<close>: the leftmost place at which the
  pattern matches. Digits, the comma and white space are disjoint, so the greedy match
  needs no backtracking: \<open>digitsThen\<close> reads one or more digits and the character that
  has to follow them.
\<close>

definition isDigit :: "char \<Rightarrow> bool" where
  "isDigit c = (48 \<le> (of_char c :: nat) \<and> (of_char c :: nat) \<le> 57)"

fun decimalValue :: "nat \<Rightarrow> string \<Rightarrow> nat" where
  "decimalValue acc [] = acc"
| "decimalValue acc (c # cs) = decimalValue (10 * acc + (of_char c - 48)) cs"

definition digitsThen :: "char \<Rightarrow> string \<Rightarrow> (nat \<times> string) option" where
  "digitsThen stop s =
     (let ds = takeWhile isDigit s; rest = dropWhile isDigit s
      in if ds = [] then None
         else (case rest of
                 c # cs \<Rightarrow> if c = stop then Some (decimalValue 0 ds, cs) else None
               | [] \<Rightarrow> None))"

definition matchRgbHere :: "string \<Rightarrow> (nat \<times> nat \<times> nat) option" where
  "matchRgbHere s =
     (if startsWith s ''rgb('' then
        (case digitsThen CHR '','' (drop 4 s) of
           None \<Rightarrow> None
         | Some (red, s1) \<Rightarrow>
             (case digitsThen CHR '','' (dropWhile isWhiteSpace s1) of
                None \<Rightarrow> None
              | Some (green, s2) \<Rightarrow>
                  (case digitsThen CHR '')'' (dropWhile isWhiteSpace s2) of
                     None \<Rightarrow> None
                   | Some (blue, s3) \<Rightarrow> Some (red, green, blue))))
      else None)"

fun matchRgb :: "string \<Rightarrow> (nat \<times> nat \<times> nat) option" where
  "matchRgb [] = None"
| "matchRgb (c # cs) =
     (case matchRgbHere (c # cs) of Some m \<Rightarrow> Some m | None \<Rightarrow> matchRgb cs)"

definition parseRgbColor :: "string \<Rightarrow> Color option" where
  "parseRgbColor colorStr =
     (if startsWith colorStr ''rgb'' then
        (case matchRgb colorStr of
           None \<Rightarrow> None
         | Some (red, green, blue) \<Rightarrow>
             Some (rgbColor (of_nat red / 255) (of_nat green / 255) (of_nat blue / 255)))
      else None)"

text \<open>
  The table \<^verbatim>\<open>namedColors\<close>, looked up with the lower-cased string (keys that a
  JavaScript object inherits, such as \<^verbatim>\<open>constructor\<close>, are outside the model).
\<close>

definition namedColors :: "(string \<times> Color) list" where
  "namedColors =
     [(''black'', rgbColor 0 0 0), (''white'', rgbColor 1 1 1), (''red'', rgbColor 1 0 0),
      (''green'', rgbColor 0 (1 / 2) 0), (''blue'', rgbColor 0 0 1),
      (''yellow'', rgbColor 1 1 0), (''cyan'', rgbColor 0 1 1), (''magenta'', rgbColor 1 0 1),
      (''gray'', rgbColor (1 / 2) (1 / 2) (1 / 2)), (''grey'', rgbColor (1 / 2) (1 / 2) (1 / 2)),
      (''darkblue'', rgbColor 0 0 (1 / 2)), (''darkgreen'', rgbColor 0 (1 / 2) 0),
      (''darkred'', rgbColor (1 / 2) 0 0),
      (''lightgray'', rgbColor (4 / 5) (4 / 5) (4 / 5)),
      (''lightgrey'', rgbColor (4 / 5) (4 / 5) (4 / 5)),
      (''orange'', rgbColor 1 (1 / 2) 0), (''purple'', rgbColor (1 / 2) 0 (1 / 2)),
      (''pink'', rgbColor 1 (3 / 4) (4 / 5))]"

definition parseColor :: "string \<Rightarrow> Color" where
  "parseColor colorStr =
     (if colorStr = [] then rgbColor 0 0 0
      else case parseHexColor colorStr of
             Some c \<Rightarrow> c
           | None \<Rightarrow>
               (case parseRgbColor colorStr of
                  Some c \<Rightarrow> c
                | None \<Rightarrow>
                    (case map_of namedColors (toLowerCase colorStr) of
                       Some c \<Rightarrow> c
                     | None \<Rightarrow> rgbColor 0 0 0)))"

text \<open>
  \<^verbatim>\<open>getTextStyle\<close>, for the colour: \<^verbatim>\<open>parseColor(computedStyle?.color || style.color ||
  'black')\<close>. An element is given by its computed colour (\<open>None\<close> when there is no
  computed style), its inline colour (empty when not set) and the other fields of the
  style as \<^verbatim>\<open>getTextStyle\<close> computes them.
\<close>

record HtmlElement =
  el_computedColor :: "string option"
  el_inlineColor :: string
  el_otherStyle :: TextStyle

definition colorString :: "HtmlElement \<Rightarrow> string" where
  "colorString element =
     (if truthyString (el_computedColor element) then the (el_computedColor element)
      else if el_inlineColor element \<noteq> [] then el_inlineColor element
      else ''black'')"

definition getTextStyle :: "HtmlElement \<Rightarrow> TextStyle" where
  "getTextStyle element = (el_otherStyle element)\<lparr>ts_color := parseColor (colorString element)\<rparr>"

text \<open>
  The \<^verbatim>\<open>effectiveStyle\<close> of \<^verbatim>\<open>processNode\<close>: \<^verbatim>\<open>currentStyle\<close> itself when there is no
  inherited style, the field-by-field merge otherwise. \<open>orFlag\<close>, \<open>orNumber\<close>,
  \<open>orString\<close> and \<open>orColor\<close> are \<^verbatim>\<open>a || b\<close> on an optional flag, number, string and
  object.
\<close>

definition orFlag :: "bool option \<Rightarrow> bool option \<Rightarrow> bool option" where
  "orFlag a b = (if a = Some True then a else b)"

definition orNumber :: "rat option \<Rightarrow> rat option \<Rightarrow> rat option" where
  "orNumber a b = (case a of None \<Rightarrow> b | Some v \<Rightarrow> if v = 0 then b else a)"

definition orString :: "string option \<Rightarrow> string option \<Rightarrow> string option" where
  "orString a b = (if truthyString a then a else b)"

definition orColor :: "Color option \<Rightarrow> Color option \<Rightarrow> Color option" where
  "orColor a b = (case a of None \<Rightarrow> b | Some c \<Rightarrow> a)"

definition effectiveStyle :: "TextStyle \<Rightarrow> TextStyle option \<Rightarrow> TextStyle" where
  "effectiveStyle currentStyle inheritedStyle =
     (case inheritedStyle of
        None \<Rightarrow> currentStyle
      | Some inherited \<Rightarrow>
          \<lparr>ts_bold = (ts_bold currentStyle \<or> ts_bold inherited),
           ts_italic = (ts_italic currentStyle \<or> ts_italic inherited),
           ts_underline = (ts_underline currentStyle \<or> ts_underline inherited),
           ts_color =
             (if col_r (ts_color currentStyle) \<noteq> Some 0 \<or> col_g (ts_color currentStyle) \<noteq> Some 0
                 \<or> col_b (ts_color currentStyle) \<noteq> Some 0
              then ts_color currentStyle else ts_color inherited),
           ts_fontSize =
             (if ts_fontSize currentStyle \<noteq> 12 then ts_fontSize currentStyle
              else ts_fontSize inherited),
           ts_fontFamily =
             (if ts_fontFamily currentStyle \<noteq> ''Arial'' then ts_fontFamily currentStyle
              else ts_fontFamily inherited),
           ts_strikethrough = orFlag (ts_strikethrough currentStyle) (ts_strikethrough inherited),
           ts_highlight = orColor (ts_highlight currentStyle) (ts_highlight inherited),
           ts_subscript = orFlag (ts_subscript currentStyle) (ts_subscript inherited),
           ts_superscript = orFlag (ts_superscript currentStyle) (ts_superscript inherited),
           ts_lineHeight = orNumber (ts_lineHeight currentStyle) (ts_lineHeight inherited),
           ts_letterSpacing = orNumber (ts_letterSpacing currentStyle) (ts_letterSpacing inherited),
           ts_textAlign = orString (ts_textAlign currentStyle) (ts_textAlign inherited)\<rparr>)"

text \<open>
  The style \<^verbatim>\<open>processNode\<close> uses for a text node without inherited style, an element
  whose only style is an inline colour, and a parent style with blue text of size 20.
\<close>

definition defaultTextStyle :: TextStyle where
  "defaultTextStyle =
     \<lparr>ts_bold = False, ts_italic = False, ts_underline = False,
      ts_color = rgbColor 0 0 0, ts_fontSize = 12, ts_fontFamily = ''Arial'',
      ts_strikethrough = None, ts_highlight = None, ts_subscript = None,
      ts_superscript = None, ts_lineHeight = None, ts_letterSpacing = None,
      ts_textAlign = None\<rparr>"

definition spanWithColor :: "string \<Rightarrow> HtmlElement" where
  "spanWithColor c =
     \<lparr>el_computedColor = None, el_inlineColor = c, el_otherStyle = defaultTextStyle\<rparr>"

definition blueParentStyle :: TextStyle where
  "blueParentStyle = defaultTextStyle\<lparr>ts_color := rgbColor 0 0 1, ts_fontSize := 20\<rparr>"

section \<open>Theorems\<close>

text \<open>
  C10. For every raw EMU value \<open>e\<close>, the canvas-size extraction yields \<open>e / 12700\<close>, the
  element-position extraction yields \<open>e / 914400 * 96 = e / 9525\<close>, and the element
  result is exactly 4/3 of the canvas result: the two parts of the intermediate model
  use two different unit scales. The scales differ on every non-zero input.
\<close>

theorem emu_scales_differ_by_four_thirds:
  "emuToCanvasPx e = of_int e / 12700
   \<and> emuToElementPx e = of_int e / 9525
   \<and> emuToElementPx e = (4 / 3) * emuToCanvasPx e
   \<and> (emuToElementPx e = emuToCanvasPx e) = (e = 0)"
  by (simp add: emuToCanvasPx_def emuToElementPx_def)

subsection \<open>Page size, scaling and centring\<close>

lemma fitPdfSize_gt_margin:
  assumes "40 < bw" "40 < bh" "0 < ar"
  shows "40 < fst (fitPdfSize bw bh ar) \<and> 40 < snd (fitPdfSize bw bh ar)"
  using assms by (auto simp: fitPdfSize_def Let_def intro: divide_pos_pos mult_pos_pos)

lemma fitPdfSize_le_base:
  "fst (fitPdfSize bw bh ar) \<le> bw \<and> snd (fitPdfSize bw bh ar) \<le> bh"
  by (auto simp: fitPdfSize_def Let_def)

lemma orDefault_pos: "0 \<le> v \<Longrightarrow> 0 < d \<Longrightarrow> 0 < orDefault v d"
  by (simp add: orDefault_def)

lemma uniformScale_pos:
  "0 < cw \<Longrightarrow> 0 < ch \<Longrightarrow> 0 < sw \<Longrightarrow> 0 < sh \<Longrightarrow> 0 < uniformScale cw ch sw sh"
  by (simp add: uniformScale_def Let_def)

lemma scaled_ratio:
  "uniformScale cw ch sw sh \<noteq> 0 \<Longrightarrow>
   scaledSlideWidth cw ch sw sh / scaledSlideHeight cw ch sw sh = sw / sh"
  by (simp add: scaledSlideWidth_def scaledSlideHeight_def)

lemma renderElementToPDF_box:
  assumes "renderElementToPDF e cw ch sw sh cs m = Some call"
  shows "callElement call = e \<and>
         callBox call =
           (let scale = uniformScale cw ch sw sh;
                x = m + offsetX cw ch sw sh + pos_x (elem_position e) * scale;
                y = m + offsetY cw ch sw sh + pos_y (elem_position e) * scale
            in (x, y, min (pos_width (elem_position e) * scale) (m + cw - x),
                      min (pos_height (elem_position e) * scale) (m + ch - y)))"
  using assms
  by (auto simp: renderElementToPDF_def Let_def split: if_splits ElementType.splits)

lemma renderSlideCalls_set:
  assumes "call \<in> set (renderSlideCalls slide pw ph sw sh cs)"
  shows "\<exists>e \<in> set (sortedElements slide). renderElementToPDF e (pw - 40) (ph - 40) sw sh cs 20 = Some call"
  using assms by (auto simp: renderSlideCalls_def Let_def List.map_filter_def)

lemma orientedBaseSize_gt_margin:
  assumes "5 \<le> dpi cs"
  shows "40 < fst (orientedBaseSize cs) \<and> 40 < snd (orientedBaseSize cs)"
  using assms
  by (cases "pageSize cs"; cases "orientation cs")
     (simp_all add: orientedBaseSize_def basePdfSize_def Let_def)

lemma pdfDimensions_content_pos:
  assumes "0 \<le> md_slideWidth md" "0 \<le> md_slideHeight md"
      "40 < fst (orientedBaseSize cs)" "40 < snd (orientedBaseSize cs)"
  shows "40 < fst (pdfDimensions cs md) \<and> 40 < snd (pdfDimensions cs md)"
proof -
  have "0 < orDefault (md_slideWidth md) 1280 / orDefault (md_slideHeight md) 720"
    using assms(1,2) by (simp add: orDefault_pos)
  then show ?thesis
    using assms(3,4) fitPdfSize_gt_margin
    by (simp add: pdfDimensions_def Let_def split_beta)
qed

lemma scaled_le_content:
  assumes "0 < cw" "0 < ch" "0 < sw" "0 < sh"
  shows "scaledSlideWidth cw ch sw sh \<le> cw \<and> scaledSlideHeight cw ch sw sh \<le> ch"
proof -
  have "sw * min (cw / sw) (ch / sh) \<le> sw * (cw / sw)"
    using assms by (intro mult_left_mono) simp_all
  moreover have "sh * min (cw / sw) (ch / sh) \<le> sh * (ch / sh)"
    using assms by (intro mult_left_mono) simp_all
  ultimately show ?thesis
    using assms by (simp add: scaledSlideWidth_def scaledSlideHeight_def uniformScale_def Let_def)
qed

lemma one_axis_fits:
  assumes "0 < sw" "0 < sh"
  shows "offsetX cw ch sw sh = 0 \<or> offsetY cw ch sw sh = 0"
  using assms
  by (auto simp: offsetX_def offsetY_def scaledSlideWidth_def scaledSlideHeight_def
        uniformScale_def Let_def min_def)

text \<open>
  C1. For every slide canvas and every content area that comes from a page size, an
  orientation and a DPI whose base page is larger than the two 20-unit margins (every
  page size at 5 DPI or more, by \<open>orientedBaseSize_gt_margin\<close>), element
  placement uses the single factor \<open>scale = min (contentWidth / slideWidth)
  (contentHeight / slideHeight)\<close>: it is positive, every renderer call of the slide gets
  \<open>x\<close> and \<open>y\<close> as margin + offset + position * scale, and width and height as
  size * scale (clipped at the far edge of the content area), and the scaled canvas has
  the aspect ratio of the slide canvas.
\<close>

theorem uniform_scale_preserves_aspect:
  assumes "0 \<le> md_slideWidth metadata" and "0 \<le> md_slideHeight metadata"
    and "40 < fst (orientedBaseSize cs)" and "40 < snd (orientedBaseSize cs)"
  defines "slideWidth \<equiv> orDefault (md_slideWidth metadata) 1280"
    and "slideHeight \<equiv> orDefault (md_slideHeight metadata) 720"
    and "pdfWidth \<equiv> fst (pdfDimensions cs metadata)"
    and "pdfHeight \<equiv> snd (pdfDimensions cs metadata)"
  defines "contentWidth \<equiv> pdfWidth - 40" and "contentHeight \<equiv> pdfHeight - 40"
  defines "scale \<equiv> uniformScale contentWidth contentHeight slideWidth slideHeight"
  shows "scale = min (contentWidth / slideWidth) (contentHeight / slideHeight)
       \<and> 0 < scale
       \<and> scaledSlideWidth contentWidth contentHeight slideWidth slideHeight
           / scaledSlideHeight contentWidth contentHeight slideWidth slideHeight
         = slideWidth / slideHeight
       \<and> (\<forall>call \<in> set (renderSlideCalls slide pdfWidth pdfHeight slideWidth slideHeight cs).
            \<exists>x y. callBox call =
                     (x, y,
                      min (pos_width (elem_position (callElement call)) * scale) (20 + contentWidth - x),
                      min (pos_height (elem_position (callElement call)) * scale) (20 + contentHeight - y))
                 \<and> x = 20 + offsetX contentWidth contentHeight slideWidth slideHeight
                          + pos_x (elem_position (callElement call)) * scale
                 \<and> y = 20 + offsetY contentWidth contentHeight slideWidth slideHeight
                          + pos_y (elem_position (callElement call)) * scale)"
proof -
  have sw: "0 < slideWidth" and sh: "0 < slideHeight"
    using assms(1,2) by (simp_all add: slideWidth_def slideHeight_def orDefault_pos)
  have "40 < pdfWidth \<and> 40 < pdfHeight"
    unfolding pdfWidth_def pdfHeight_def
    by (rule pdfDimensions_content_pos [OF assms(1-4)])
  then have cw: "0 < contentWidth" and ch: "0 < contentHeight"
    by (simp_all add: contentWidth_def contentHeight_def)
  have pos: "0 < scale"
    unfolding scale_def by (rule uniformScale_pos [OF cw ch sw sh])
  have ratio: "scaledSlideWidth contentWidth contentHeight slideWidth slideHeight
           / scaledSlideHeight contentWidth contentHeight slideWidth slideHeight
         = slideWidth / slideHeight"
    using pos by (intro scaled_ratio) (simp add: scale_def)
  have boxes: "\<exists>x y. callBox call =
                     (x, y,
                      min (pos_width (elem_position (callElement call)) * scale) (20 + contentWidth - x),
                      min (pos_height (elem_position (callElement call)) * scale) (20 + contentHeight - y))
                 \<and> x = 20 + offsetX contentWidth contentHeight slideWidth slideHeight
                          + pos_x (elem_position (callElement call)) * scale
                 \<and> y = 20 + offsetY contentWidth contentHeight slideWidth slideHeight
                          + pos_y (elem_position (callElement call)) * scale"
    if mem: "call \<in> set (renderSlideCalls slide pdfWidth pdfHeight slideWidth slideHeight cs)" for call
  proof -
    obtain e where "renderElementToPDF e contentWidth contentHeight slideWidth slideHeight cs 20 = Some call"
      using renderSlideCalls_set [OF mem] by (auto simp: contentWidth_def contentHeight_def)
    from renderElementToPDF_box [OF this] show ?thesis
      by (simp add: Let_def scale_def)
  qed
  show ?thesis
    using pos ratio boxes by (simp add: scale_def uniformScale_def Let_def)
qed

theorem uniform_scale_preserves_aspect_witness:
  "0 \<le> md_slideWidth exampleMetadata \<and> 0 \<le> md_slideHeight exampleMetadata
   \<and> 40 < fst (orientedBaseSize initialSettings) \<and> 40 < snd (orientedBaseSize initialSettings)
   \<and> pdfDimensions initialSettings exampleMetadata = (14755 / 9, 14875 / 12)
   \<and> uniformScale (14755 / 9 - 40) (14875 / 12 - 40) 720 540 = 2879 / 1296
   \<and> scaledSlideWidth (14755 / 9 - 40) (14875 / 12 - 40) 720 540
       / scaledSlideHeight (14755 / 9 - 40) (14875 / 12 - 40) 720 540 = 720 / 540
   \<and> map callBox (renderSlideCalls exampleSlide (14755 / 9) (14875 / 12) 720 540 initialSettings)
       = [(20, 20, 400 * (2879 / 1296), 100 * (2879 / 1296))]"
proof -
  have h1: "0 \<le> md_slideWidth exampleMetadata" and h2: "0 \<le> md_slideHeight exampleMetadata"
    by (simp_all add: exampleMetadata_def)
  have h3: "40 < fst (orientedBaseSize initialSettings)"
    and h4: "40 < snd (orientedBaseSize initialSettings)"
    by (simp_all add: orientedBaseSize_def initialSettings_def basePdfSize_def Let_def)
  have dims: "pdfDimensions initialSettings exampleMetadata = (14755 / 9, 14875 / 12)"
    by (simp add: pdfDimensions_def orientedBaseSize_def initialSettings_def basePdfSize_def
          fitPdfSize_def exampleMetadata_def orDefault_def Let_def)
  have calls: "map callBox (renderSlideCalls exampleSlide (14755 / 9) (14875 / 12) 720 540 initialSettings)
       = [(20, 20, 400 * (2879 / 1296), 100 * (2879 / 1296))]"
    by (simp add: renderSlideCalls_def sortedElements_def exampleSlide_def exampleTextElement_def
          renderElementToPDF_def uniformScale_def offsetX_def offsetY_def scaledSlideWidth_def
          scaledSlideHeight_def initialSettings_def List.map_filter_def Let_def)
  show ?thesis
    using uniform_scale_preserves_aspect [OF h1 h2 h3 h4, of exampleSlide] h1 h2 h3 h4 dims calls
    by (simp add: exampleMetadata_def orDefault_def)
qed

text \<open>
  C5. Under the same conditions the leftover space is split equally on each axis:
  \<open>offsetX = (contentWidth - scaledSlideWidth) / 2\<close> and likewise \<open>offsetY\<close>; both
  are non-negative; the leftover to the right of the scaled canvas equals the one to the
  left, the one below equals the one above; and the offsets are added to the scaled
  position of every element that reaches a renderer.
\<close>

theorem leftover_space_split_equally:
  assumes "0 \<le> md_slideWidth metadata" and "0 \<le> md_slideHeight metadata"
    and "40 < fst (orientedBaseSize cs)" and "40 < snd (orientedBaseSize cs)"
  defines "slideWidth \<equiv> orDefault (md_slideWidth metadata) 1280"
    and "slideHeight \<equiv> orDefault (md_slideHeight metadata) 720"
    and "pdfWidth \<equiv> fst (pdfDimensions cs metadata)"
    and "pdfHeight \<equiv> snd (pdfDimensions cs metadata)"
  defines "contentWidth \<equiv> pdfWidth - 40" and "contentHeight \<equiv> pdfHeight - 40"
  defines "scale \<equiv> uniformScale contentWidth contentHeight slideWidth slideHeight"
    and "scaledW \<equiv> scaledSlideWidth contentWidth contentHeight slideWidth slideHeight"
    and "scaledH \<equiv> scaledSlideHeight contentWidth contentHeight slideWidth slideHeight"
    and "offX \<equiv> offsetX contentWidth contentHeight slideWidth slideHeight"
    and "offY \<equiv> offsetY contentWidth contentHeight slideWidth slideHeight"
  shows "offX = (contentWidth - scaledW) / 2
       \<and> offY = (contentHeight - scaledH) / 2
       \<and> 0 \<le> offX \<and> 0 \<le> offY
       \<and> contentWidth - (offX + scaledW) = offX
       \<and> contentHeight - (offY + scaledH) = offY
       \<and> (\<forall>call \<in> set (renderSlideCalls slide pdfWidth pdfHeight slideWidth slideHeight cs).
            fst (callBox call) = 20 + offX + pos_x (elem_position (callElement call)) * scale
          \<and> fst (snd (callBox call)) = 20 + offY + pos_y (elem_position (callElement call)) * scale)"
proof -
  have sw: "0 < slideWidth" and sh: "0 < slideHeight"
    using assms(1,2) by (simp_all add: slideWidth_def slideHeight_def orDefault_pos)
  have "40 < pdfWidth \<and> 40 < pdfHeight"
    unfolding pdfWidth_def pdfHeight_def
    by (rule pdfDimensions_content_pos [OF assms(1-4)])
  then have cw: "0 < contentWidth" and ch: "0 < contentHeight"
    by (simp_all add: contentWidth_def contentHeight_def)
  have le: "scaledW \<le> contentWidth \<and> scaledH \<le> contentHeight"
    unfolding scaledW_def scaledH_def by (rule scaled_le_content [OF cw ch sw sh])
  have offs: "offX = (contentWidth - scaledW) / 2" "offY = (contentHeight - scaledH) / 2"
    by (simp_all add: offX_def offY_def offsetX_def offsetY_def scaledW_def scaledH_def)
  have boxes: "fst (callBox call) = 20 + offX + pos_x (elem_position (callElement call)) * scale
          \<and> fst (snd (callBox call)) = 20 + offY + pos_y (elem_position (callElement call)) * scale"
    if mem: "call \<in> set (renderSlideCalls slide pdfWidth pdfHeight slideWidth slideHeight cs)" for call
  proof -
    obtain e where "renderElementToPDF e contentWidth contentHeight slideWidth slideHeight cs 20 = Some call"
      using renderSlideCalls_set [OF mem] by (auto simp: contentWidth_def contentHeight_def)
    from renderElementToPDF_box [OF this] show ?thesis
      by (simp add: Let_def scale_def offX_def offY_def)
  qed
  show ?thesis
    using le offs boxes by (simp add: field_simps)
qed

theorem leftover_space_split_equally_witness:
  "0 \<le> md_slideWidth wideMetadata \<and> 0 \<le> md_slideHeight wideMetadata
   \<and> 40 < fst (orientedBaseSize legalSettings) \<and> 40 < snd (orientedBaseSize legalSettings)
   \<and> pdfDimensions legalSettings wideMetadata = (2100, 1275)
   \<and> offsetX 2060 1235 830 500 = 99 / 20
   \<and> 2060 - (offsetX 2060 1235 830 500 + scaledSlideWidth 2060 1235 830 500) = 99 / 20
   \<and> offsetY 2060 1235 830 500 = 0
   \<and> 1235 - (offsetY 2060 1235 830 500 + scaledSlideHeight 2060 1235 830 500) = 0
   \<and> map callBox (renderSlideCalls exampleSlide 2100 1275 830 500 legalSettings)
       = [(20 + 99 / 20, 20, 988, 247)]"
proof -
  have h1: "0 \<le> md_slideWidth wideMetadata" and h2: "0 \<le> md_slideHeight wideMetadata"
    by (simp_all add: wideMetadata_def)
  have h3: "40 < fst (orientedBaseSize legalSettings)"
    and h4: "40 < snd (orientedBaseSize legalSettings)"
    by (simp_all add: orientedBaseSize_def legalSettings_def initialSettings_def basePdfSize_def Let_def)
  have dims: "pdfDimensions legalSettings wideMetadata = (2100, 1275)"
    by (simp add: pdfDimensions_def orientedBaseSize_def legalSettings_def initialSettings_def
          basePdfSize_def fitPdfSize_def wideMetadata_def orDefault_def Let_def)
  have offs: "offsetX 2060 1235 830 500 = 99 / 20" "offsetY 2060 1235 830 500 = 0"
    by (simp_all add: offsetX_def offsetY_def scaledSlideWidth_def scaledSlideHeight_def
          uniformScale_def Let_def)
  have calls: "map callBox (renderSlideCalls exampleSlide 2100 1275 830 500 legalSettings)
       = [(20 + 99 / 20, 20, 988, 247)]"
    by (simp add: renderSlideCalls_def sortedElements_def exampleSlide_def exampleTextElement_def
          renderElementToPDF_def uniformScale_def offsetX_def offsetY_def scaledSlideWidth_def
          scaledSlideHeight_def legalSettings_def initialSettings_def List.map_filter_def Let_def)
  show ?thesis
    using leftover_space_split_equally [OF h1 h2 h3 h4, of exampleSlide] h1 h2 h3 h4 dims offs calls
    by (simp add: wideMetadata_def orDefault_def)
qed

text \<open>
  C9. With \<open>orientation = landscape\<close> the width and height of the DPI-scaled base page
  size are swapped first, and the aspect-ratio fit runs on the swapped pair: the page
  dimensions are \<open>fitPdfSize\<close> of (base height, base width), so the page is at most as
  wide as the base page is high and at most as high as the base page is wide.
\<close>

theorem landscape_swaps_base_before_fit:
  fixes metadata :: PresentationMetadata
  assumes "orientation cs = landscape"
  defines "base \<equiv> basePdfSize (pageSize cs) (dpi cs / 72)"
    and "slideAspectRatio \<equiv>
           orDefault (md_slideWidth metadata) 1280 / orDefault (md_slideHeight metadata) 720"
  shows "orientedBaseSize cs = (snd base, fst base)
       \<and> pdfDimensions cs metadata = fitPdfSize (snd base) (fst base) slideAspectRatio
       \<and> fst (pdfDimensions cs metadata) \<le> snd base
       \<and> snd (pdfDimensions cs metadata) \<le> fst base"
proof -
  have swap: "orientedBaseSize cs = (snd base, fst base)"
    using assms(1) by (simp add: orientedBaseSize_def base_def Let_def split_beta)
  then have fit: "pdfDimensions cs metadata = fitPdfSize (snd base) (fst base) slideAspectRatio"
    by (simp add: pdfDimensions_def slideAspectRatio_def Let_def)
  show ?thesis
    using swap fit fitPdfSize_le_base [of "snd base" "fst base" slideAspectRatio] by simp
qed

text \<open>
  At the initial settings (A4, landscape, 150 DPI) and a 720 x 540 canvas the page is
  14755/9 x 14875/12. Fitting the unswapped base page gives 14875/12 x 15035/16, which
  is not the same page turned round.
\<close>

theorem landscape_swaps_base_before_fit_witness:
  "orientation initialSettings = landscape
   \<and> basePdfSize (pageSize initialSettings) (dpi initialSettings / 72) = (14875 / 12, 21050 / 12)
   \<and> orientedBaseSize initialSettings = (21050 / 12, 14875 / 12)
   \<and> pdfDimensions initialSettings exampleMetadata = fitPdfSize (21050 / 12) (14875 / 12) (720 / 540)
   \<and> pdfDimensions initialSettings exampleMetadata = (14755 / 9, 14875 / 12)
   \<and> fitPdfSize (14875 / 12) (21050 / 12) (720 / 540) = (14875 / 12, 15035 / 16)"
proof -
  have h: "orientation initialSettings = landscape"
    by (simp add: initialSettings_def)
  have base: "basePdfSize (pageSize initialSettings) (dpi initialSettings / 72) = (14875 / 12, 21050 / 12)"
    by (simp add: initialSettings_def basePdfSize_def)
  have fit: "fitPdfSize (21050 / 12) (14875 / 12) (720 / 540) = (14755 / 9, 14875 / 12)"
    "fitPdfSize (14875 / 12) (21050 / 12) (720 / 540) = (14875 / 12, 15035 / 16)"
    by (simp_all add: fitPdfSize_def Let_def)
  show ?thesis
    using landscape_swaps_base_before_fit [OF h, of exampleMetadata] h base fit
    by (simp add: exampleMetadata_def orDefault_def)
qed

subsection \<open>Paint order\<close>

lemma insertBy_mset: "mset (insertBy cmp a xs) = add_mset a (mset xs)"
  by (induction xs) auto

lemma sortBy_mset: "mset (sortBy cmp xs) = mset xs"
  by (induction xs) (auto simp: insertBy_mset)

lemma insertBy_set: "set (insertBy cmp a xs) = insert a (set xs)"
  by (induction xs) auto

lemma insertBy_sorted:
  "sorted (map zKey xs) \<Longrightarrow> sorted (map zKey (insertBy compareZ a xs))"
  by (induction xs) (auto simp: compareZ_def insertBy_set)

lemma sortBy_sorted: "sorted (map zKey (sortBy compareZ xs))"
  by (induction xs) (auto simp: insertBy_sorted)

lemma insertBy_filter:
  "sorted (map zKey xs) \<Longrightarrow>
   filter (\<lambda>e. zKey e = k) (insertBy compareZ a xs) =
     (if zKey a = k then a # filter (\<lambda>e. zKey e = k) xs else filter (\<lambda>e. zKey e = k) xs)"
  by (induction xs) (auto simp: compareZ_def)

lemma sortBy_stable:
  "filter (\<lambda>e. zKey e = k) (sortBy compareZ xs) = filter (\<lambda>e. zKey e = k) xs"
  by (induction xs) (auto simp: insertBy_filter sortBy_sorted)

text \<open>
  C6. The elements of a slide are painted in ascending order of \<^verbatim>\<open>zIndex\<close> (a missing
  \<^verbatim>\<open>zIndex\<close> counts as 0): of any two painted elements the earlier one has the smaller
  or equal \<^verbatim>\<open>zIndex\<close>. The painted list is a permutation of the extracted list,
  elements with equal \<^verbatim>\<open>zIndex\<close> keep their extraction order, and the renderer calls
  are made in the order of the painted list (for the elements that reach a renderer).
\<close>

theorem elements_painted_in_stable_zIndex_order:
  fixes slide :: SlideData
  defines "key \<equiv> (\<lambda>element. case elem_zIndex element of None \<Rightarrow> (0::int) | Some z \<Rightarrow> z)"
  defines "painted \<equiv> sortedElements slide"
  shows "(\<forall>i j. i < j \<and> j < length painted \<longrightarrow> key (painted ! i) \<le> key (painted ! j))
       \<and> mset painted = mset (slide_elements slide)
       \<and> (\<forall>k. filter (\<lambda>element. key element = k) painted
                = filter (\<lambda>element. key element = k) (slide_elements slide))
       \<and> map callElement (renderSlideCalls slide pdfWidth pdfHeight slideWidth slideHeight cs)
           = filter (\<lambda>element. renderElementToPDF element (pdfWidth - 40) (pdfHeight - 40)
                                   slideWidth slideHeight cs 20 \<noteq> None)
               painted"
proof -
  have key: "key = zKey"
    by (simp add: fun_eq_iff key_def zKey_def)
  have "sorted (map key painted)"
    by (simp add: key painted_def sortedElements_def sortBy_sorted)
  then have ascending: "key (painted ! i) \<le> key (painted ! j)"
    if "i < j \<and> j < length painted" for i j
    using that sorted_nth_mono [of "map key painted" i j] by simp
  have calls: "map callElement (List.map_filter f xs) = filter (\<lambda>e. f e \<noteq> None) xs"
    if "\<And>e c. f e = Some c \<Longrightarrow> callElement c = e" for f and xs :: "SlideElement list"
    using that by (induction xs) (auto simp: List.map_filter_def)
  have order: "map callElement (renderSlideCalls slide pdfWidth pdfHeight slideWidth slideHeight cs)
           = filter (\<lambda>element. renderElementToPDF element (pdfWidth - 40) (pdfHeight - 40)
                                   slideWidth slideHeight cs 20 \<noteq> None)
               painted"
    using renderElementToPDF_box
    by (simp add: painted_def renderSlideCalls_def Let_def calls)
  have perm: "mset painted = mset (slide_elements slide)"
    by (simp add: painted_def sortedElements_def sortBy_mset)
  have stable: "filter (\<lambda>element. key element = k) painted
                = filter (\<lambda>element. key element = k) (slide_elements slide)" for k
    by (simp add: key painted_def sortedElements_def sortBy_stable)
  show ?thesis
    using ascending perm stable order by blast
qed

text \<open>
  Four elements extracted in the order a, b, c, d with \<^verbatim>\<open>zIndex\<close> 2, 1, 2 and none are
  painted in the order d, b, a, c.
\<close>

lemma layeredSlide_order:
  "map elem_id (slide_elements layeredSlide) = [''a'', ''b'', ''c'', ''d'']
   \<and> map elem_zIndex (slide_elements layeredSlide) = [Some 2, Some 1, Some 2, None]
   \<and> map elem_id (sortedElements layeredSlide) = [''d'', ''b'', ''a'', ''c'']
   \<and> map elem_zIndex (sortedElements layeredSlide) = [None, Some 1, Some 2, Some 2]
   \<and> map (elem_id \<circ> callElement)
         (renderSlideCalls layeredSlide (14755 / 9) (14875 / 12) 720 540 initialSettings)
       = [''d'', ''b'', ''a'', ''c'']"
  by code_simp

theorem elements_painted_in_stable_zIndex_order_witness:
  "map elem_id (slide_elements layeredSlide) = [''a'', ''b'', ''c'', ''d'']
   \<and> map elem_zIndex (slide_elements layeredSlide) = [Some 2, Some 1, Some 2, None]
   \<and> map elem_id (sortedElements layeredSlide) = [''d'', ''b'', ''a'', ''c'']
   \<and> map elem_zIndex (sortedElements layeredSlide) = [None, Some 1, Some 2, Some 2]
   \<and> map (elem_id \<circ> callElement)
         (renderSlideCalls layeredSlide (14755 / 9) (14875 / 12) 720 540 initialSettings)
       = [''d'', ''b'', ''a'', ''c'']
   \<and> (0::nat) < 3 \<and> 3 < length (sortedElements layeredSlide)
   \<and> (case elem_zIndex (sortedElements layeredSlide ! 0) of None \<Rightarrow> 0 | Some z \<Rightarrow> z)
       \<le> (case elem_zIndex (sortedElements layeredSlide ! 3) of None \<Rightarrow> (0::int) | Some z \<Rightarrow> z)
   \<and> mset (sortedElements layeredSlide) = mset (slide_elements layeredSlide)"
proof -
  have len: "(0::nat) < 3 \<and> 3 < length (sortedElements layeredSlide)"
    by code_simp
  from elements_painted_in_stable_zIndex_order [of layeredSlide] len
  have "(case elem_zIndex (sortedElements layeredSlide ! 0) of None \<Rightarrow> 0 | Some z \<Rightarrow> z)
       \<le> (case elem_zIndex (sortedElements layeredSlide ! 3) of None \<Rightarrow> (0::int) | Some z \<Rightarrow> z)"
    and "mset (sortedElements layeredSlide) = mset (slide_elements layeredSlide)"
    by blast+
  with layeredSlide_order len show ?thesis by blast
qed

subsection \<open>Fallback word wrapping\<close>

lemma lineToAdd_bounds:
  assumes "r \<noteq> []"
  shows "1 \<le> length (lineToAdd g a r) \<and> length (lineToAdd g a r) \<le> length r"
  using assms by (cases r) (simp_all add: lineToAdd_def Let_def)

lemma lineToAdd_consumes:
  assumes "r \<noteq> []"
  shows "length (drop (length (lineToAdd g a r)) r) < length r"
proof -
  have "0 < length r" using assms by simp
  with lineToAdd_bounds [OF assms, of g a] show ?thesis
    by (simp only: length_drop) linarith
qed

lemma scanChars_wide:
  "c \<le> length r \<Longrightarrow> a < g r \<Longrightarrow> scanChars g a r c \<le> length r"
proof (induction g a r c rule: scanChars.induct)
  case (1 g a r c)
  show ?case
  proof (cases "a < g (take c r)")
    case True
    with "1.prems" show ?thesis by (simp add: scanChars.simps [of g a r c])
  next
    case False
    with "1.prems" have "c \<noteq> length r" by auto
    with "1.prems" False "1.IH" show ?thesis by (simp add: scanChars.simps [of g a r c])
  qed
qed

lemma scanChars_fits:
  "c \<le> k \<Longrightarrow> k < scanChars g a r c \<Longrightarrow> g (take k r) \<le> a"
proof (induction g a r c rule: scanChars.induct)
  case (1 g a r c)
  show ?case
  proof (cases "c \<le> length r \<and> \<not> a < g (take c r)")
    case True
    show ?thesis
    proof (cases "k = c")
      case True
      with \<open>c \<le> length r \<and> \<not> a < g (take c r)\<close> show ?thesis by simp
    next
      case False
      with "1.prems" True "1.IH" show ?thesis by (simp add: scanChars.simps [of g a r c])
    qed
  next
    case False
    with "1.prems" show ?thesis by (auto simp: scanChars.simps [of g a r c] split: if_splits)
  qed
qed

lemma lineToAdd_short:
  assumes "2 \<le> length r" "a < g r"
  shows "length (lineToAdd g a r) < length r"
proof -
  have "scanChars g a r 1 \<le> length r"
    using assms by (intro scanChars_wide) simp_all
  then show ?thesis
    using assms(1) by (auto simp: lineToAdd_def Let_def max_def)
qed

lemma lineToAdd_fits:
  assumes "2 \<le> length (lineToAdd g a r)"
  shows "g (lineToAdd g a r) \<le> a"
proof -
  let ?c = "scanChars g a r 1"
  from assms have c: "2 \<le> ?c - 1"
    by (auto simp: lineToAdd_def Let_def max_def split: if_splits)
  then have "g (take (?c - 1) r) \<le> a"
    by (intro scanChars_fits [where c = 1]) simp_all
  with c show ?thesis
    by (simp add: lineToAdd_def Let_def max_def)
qed

lemma take_drop_length: "take n r @ drop (length (take n r)) r = r"
  by (cases "n \<le> length r") (simp_all add: min_def)

lemma hardBreak_Nil: "hardBreak g a [] ls = ls"
  by (simp add: hardBreak.simps)

lemma hardBreak_step:
  "r \<noteq> [] \<Longrightarrow>
   hardBreak g a r ls = hardBreak g a (drop (length (lineToAdd g a r)) r) (ls @ [lineToAdd g a r])"
  by (subst hardBreak.simps) (simp add: Let_def)

lemma hardBreak_acc: "hardBreak g a r ls = ls @ hardBreak g a r []"
proof (induction r arbitrary: ls rule: length_induct)
  case (1 r)
  show ?case
  proof (cases "r = []")
    case True
    then show ?thesis by (simp add: hardBreak_Nil)
  next
    case False
    let ?l = "lineToAdd g a r"
    have shorter: "length (drop (length ?l) r) < length r"
      by (rule lineToAdd_consumes [OF False])
    have "hardBreak g a r ls = (ls @ [?l]) @ hardBreak g a (drop (length ?l) r) []"
      using "1.IH" shorter hardBreak_step [OF False] by metis
    moreover have "hardBreak g a r [] = [?l] @ hardBreak g a (drop (length ?l) r) []"
      using "1.IH" shorter hardBreak_step [OF False, of g a "[]"] by (metis append_Nil)
    ultimately show ?thesis by simp
  qed
qed

lemma hardBreak_Cons:
  "r \<noteq> [] \<Longrightarrow>
   hardBreak g a r [] = lineToAdd g a r # hardBreak g a (drop (length (lineToAdd g a r)) r) []"
  using hardBreak_step [of r g a "[]"] hardBreak_acc [of g a _ "[lineToAdd g a r]"] by simp

lemma hardBreak_concat: "concat (hardBreak g a r []) = r"
proof (induction r rule: length_induct)
  case (1 r)
  show ?case
  proof (cases "r = []")
    case True
    then show ?thesis by (simp add: hardBreak_Nil)
  next
    case False
    let ?l = "lineToAdd g a r"
    have shorter: "length (drop (length ?l) r) < length r"
      by (rule lineToAdd_consumes [OF False])
    have "?l @ drop (length ?l) r = r"
      unfolding lineToAdd_def Let_def by (rule take_drop_length)
    with "1.IH" shorter show ?thesis
      by (simp add: hardBreak_Cons [OF False])
  qed
qed

lemma hardBreak_lines_nonempty: "l \<in> set (hardBreak g a r []) \<Longrightarrow> l \<noteq> []"
proof (induction r rule: length_induct)
  case (1 r)
  show ?case
  proof (cases "r = []")
    case True
    with "1.prems" show ?thesis by (simp add: hardBreak_Nil)
  next
    case False
    let ?l = "lineToAdd g a r"
    have shorter: "length (drop (length ?l) r) < length r"
      by (rule lineToAdd_consumes [OF False])
    have first: "?l \<noteq> []"
      using lineToAdd_bounds [OF False, of g a] by auto
    have rest: "l \<noteq> []" if "l \<in> set (hardBreak g a (drop (length ?l) r) [])"
      using "1.IH" shorter that by blast
    from "1.prems" have "l = ?l \<or> l \<in> set (hardBreak g a (drop (length ?l) r) [])"
      by (simp add: hardBreak_Cons [OF False])
    with first rest show ?thesis by auto
  qed
qed

lemma hardBreak_lines_fit:
  "l \<in> set (hardBreak g a r []) \<Longrightarrow> length l = 1 \<or> g l \<le> a"
proof (induction r rule: length_induct)
  case (1 r)
  show ?case
  proof (cases "r = []")
    case True
    with "1.prems" show ?thesis by (simp add: hardBreak_Nil)
  next
    case False
    let ?l = "lineToAdd g a r"
    have shorter: "length (drop (length ?l) r) < length r"
      by (rule lineToAdd_consumes [OF False])
    have first: "length ?l = 1 \<or> g ?l \<le> a"
      using lineToAdd_bounds [OF False, of g a] lineToAdd_fits [of g a r] by linarith
    have rest: "length l = 1 \<or> g l \<le> a"
      if "l \<in> set (hardBreak g a (drop (length ?l) r) [])"
      using "1.IH" shorter that by blast
    from "1.prems" have "l = ?l \<or> l \<in> set (hardBreak g a (drop (length ?l) r) [])"
      by (simp add: hardBreak_Cons [OF False])
    with first rest show ?thesis by auto
  qed
qed

lemma hardBreak_two_lines:
  assumes "2 \<le> length r" "a < g r"
  shows "2 \<le> length (hardBreak g a r [])"
proof -
  from assms(1) have ne: "r \<noteq> []" by auto
  let ?l = "lineToAdd g a r"
  have "drop (length ?l) r \<noteq> []"
    using lineToAdd_short [of r a g] assms by simp
  then show ?thesis
    by (simp add: hardBreak_Cons [OF ne] hardBreak_Cons [of "drop (length ?l) r"])
qed

lemma wrapFallback_single:
  assumes "a < g word"
  shows "wrapFallback g a [word] = hardBreak g a word []"
  using assms by (simp add: wrapFallback_def Let_def)

text \<open>
  C4. For every non-empty word that is wider than \<open>availableWidth\<close> (with
  \<open>availableWidth > 0\<close>), the hard-break loop, which is a total function, produces at
  least one line; every line has at least one character, and a line of more than one
  character fits the width; the lines concatenate to the word; each iteration emits at least one character
  and leaves a strictly shorter remainder; a word of two or more characters yields more
  than one line; and the fallback wrap of a text that is this single word is exactly
  these lines.
\<close>

theorem hard_break_progress:
  assumes "word \<noteq> []" and "availableWidth < getTextWidth word" and "0 < availableWidth"
  shows "hardBreak getTextWidth availableWidth word [] \<noteq> []
       \<and> (\<forall>line \<in> set (hardBreak getTextWidth availableWidth word []).
            1 \<le> length line \<and> (length line = 1 \<or> getTextWidth line \<le> availableWidth))
       \<and> concat (hardBreak getTextWidth availableWidth word []) = word
       \<and> 1 \<le> length (lineToAdd getTextWidth availableWidth word)
       \<and> length (drop (length (lineToAdd getTextWidth availableWidth word)) word) < length word
       \<and> (2 \<le> length word \<longrightarrow> 2 \<le> length (hardBreak getTextWidth availableWidth word []))
       \<and> wrapFallback getTextWidth availableWidth [word]
           = hardBreak getTextWidth availableWidth word []"
proof -
  have "hardBreak getTextWidth availableWidth word [] \<noteq> []"
    by (simp add: hardBreak_Cons [OF assms(1)])
  moreover have "1 \<le> length line \<and> (length line = 1 \<or> getTextWidth line \<le> availableWidth)"
    if "line \<in> set (hardBreak getTextWidth availableWidth word [])" for line
    using hardBreak_lines_nonempty [OF that] hardBreak_lines_fit [OF that]
    by (cases line) simp_all
  moreover have "length (drop (length (lineToAdd getTextWidth availableWidth word)) word) < length word"
    by (rule lineToAdd_consumes [OF assms(1)])
  ultimately show ?thesis
    using lineToAdd_bounds [OF assms(1), of getTextWidth availableWidth]
      hardBreak_two_lines [of word availableWidth getTextWidth] assms(2)
      wrapFallback_single [of availableWidth getTextWidth word]
    by (simp add: hardBreak_concat)
qed

text \<open>
  A ten-character word into a width of 20 with six units a character, and a
  200-character word into a width of 50.
\<close>

lemma hardBreak_example: "hardBreak charWidth6 20 ''abcdefghij'' [] = [''abc'', ''def'', ''ghi'', ''j'']"
  by code_simp

theorem hard_break_progress_witness:
  "replicate 200 CHR ''a'' \<noteq> [] \<and> 50 < charWidth6 (replicate 200 CHR ''a'') \<and> (0::rat) < 50
   \<and> 2 \<le> length (hardBreak charWidth6 50 (replicate 200 CHR ''a'') [])
   \<and> concat (hardBreak charWidth6 50 (replicate 200 CHR ''a'') []) = replicate 200 CHR ''a''
   \<and> wrapFallback charWidth6 50 [replicate 200 CHR ''a'']
       = hardBreak charWidth6 50 (replicate 200 CHR ''a'') []"
proof -
  have h1: "replicate 200 CHR ''a'' \<noteq> []" by simp
  have h2: "50 < charWidth6 (replicate 200 CHR ''a'')" by (simp add: charWidth6_def)
  have h3: "(0::rat) < 50" by simp
  show ?thesis
    using hard_break_progress [of "replicate 200 CHR ''a''" 50 charWidth6] h1 h2 h3 by simp
qed

subsection \<open>Tables\<close>












subsection \<open>Image placeholder\<close>

lemma textsOf_Nil: "textsOf [] = []"
  by (simp add: textsOf_def List.map_filter_def)

lemma textsOf_Cons:
  "textsOf (op # ops) = (case textOf op of None \<Rightarrow> textsOf ops | Some t \<Rightarrow> t # textsOf ops)"
  by (simp add: textsOf_def List.map_filter_def split: option.splits)

lemma textsOf_append: "textsOf (a @ b) = textsOf a @ textsOf b"
  by (simp add: textsOf_def List.map_filter_def)

lemma placeholderLines_none:
  assumes "0 \<le> lh" and "y + h - 5 \<le> tsy + of_nat i * lh"
  shows "placeholderLines ls i tsy lh x y w h = []"
  using assms(2)
proof (induction ls arbitrary: i)
  case Nil
  show ?case by simp
next
  case (Cons l ls)
  have "tsy + of_nat i * lh \<le> tsy + of_nat (i + 1) * lh"
    using assms(1) by (simp add: algebra_simps)
  with Cons.prems have "y + h - 5 \<le> tsy + of_nat (i + 1) * lh"
    by linarith
  from Cons.IH [OF this] Cons.prems show ?case
    by (simp add: Let_def)
qed

lemma placeholderLines_texts:
  assumes "0 \<le> lh"
  shows "\<exists>k\<le>3 - i. textsOf (placeholderLines ls i tsy lh x y w h) = take k ls"
proof (induction ls arbitrary: i)
  case Nil
  show ?case by (intro exI [where x = 0]) (simp add: textsOf_Nil)
next
  case (Cons l ls)
  show ?case
  proof (cases "i < 3 \<and> tsy + of_nat i * lh < y + h - 5")
    case True
    from Cons.IH [of "i + 1"] obtain k where
      k: "k \<le> 3 - (i + 1)" "textsOf (placeholderLines ls (i + 1) tsy lh x y w h) = take k ls"
      by blast
    with True have "textsOf (placeholderLines (l # ls) i tsy lh x y w h) = take (Suc k) (l # ls)"
      by (simp add: Let_def textsOf_Cons textsOf_append)
    moreover from k(1) True have "Suc k \<le> 3 - i" by linarith
    ultimately show ?thesis by blast
  next
    case False
    then have "placeholderLines (l # ls) i tsy lh x y w h = []"
      using placeholderLines_none [OF assms, of y h tsy i "l # ls" x w]
      by (cases "i < 3") (simp_all add: Let_def)
    then show ?thesis by (intro exI [where x = 0]) (simp add: textsOf_Nil)
  qed
qed

lemma placeholderLines_inBox:
  assumes "0 \<le> lh" and "0 \<le> w" and "y \<le> tsy"
    and "op \<in> set (placeholderLines ls i tsy lh x y w h)"
  shows "opInBox x y w h op"
  using assms(4)
proof (induction ls arbitrary: i)
  case Nil
  then show ?case by simp
next
  case (Cons l ls)
  have "0 \<le> of_nat i * lh"
    using assms(1) by simp
  with assms(3) have "y \<le> tsy + of_nat i * lh" by linarith
  with Cons assms(2) show ?case
    by (auto simp: Let_def split: if_splits)
qed

lemma renderImagePlaceholder_prefix:
  "take 8 (renderImagePlaceholder sp x y w h msg) =
     [SetFillColor (Some 248) (Some 249) (Some 250),
      SetDrawColor (Some 220) (Some 220) (Some 220),
      SetLineWidth 1,
      Rect x y w h ''FD'',
      SetDrawColor (Some 200) (Some 200) (Some 200),
      SetLineWidth (1 / 2),
      Line x y (x + w) (y + h),
      Line (x + w) y x (y + h)]"
  by (simp add: renderImagePlaceholder_def Let_def)

lemma renderImagePlaceholder_texts:
  "\<exists>k\<le>3. textsOf (renderImagePlaceholder sp x y w h msg)
            = take k (sp (max 8 (min 12 (w / 15))) msg (w - 10))"
proof -
  have "0 \<le> max 8 (min 12 (w / 15)) * (6 / 5)" by simp
  from placeholderLines_texts [OF this, of 0] show ?thesis
    by (simp add: renderImagePlaceholder_def Let_def textsOf_Cons textsOf_append)
qed

lemma renderImagePlaceholder_inBox:
  assumes "0 \<le> w" and "0 \<le> h" and "op \<in> set (renderImagePlaceholder sp x y w h msg)"
  shows "opInBox x y w h op"
proof -
  define icon where "icon = min w h * (3 / 10)"
  define fs where "fs = max 8 (min 12 (w / 15))"
  define lh where "lh = fs * (6 / 5)"
  have icon: "0 \<le> icon" "icon \<le> w" "icon \<le> h"
    using assms(1,2) by (auto simp: icon_def min_def)
  have lh: "0 \<le> lh" by (simp add: lh_def fs_def)
  have half: "0 \<le> (h - icon) / 2" "0 \<le> (w - icon) / 2"
    "(h - icon) / 2 + icon \<le> h" "(w - icon) / 2 + icon \<le> w"
    using icon by (simp_all add: field_simps)
  have tsy: "y \<le> y + (h - icon) / 2 + icon + lh"
    using half icon lh by linarith
  have ops: "renderImagePlaceholder sp x y w h msg =
      [SetFillColor (Some 248) (Some 249) (Some 250),
       SetDrawColor (Some 220) (Some 220) (Some 220),
       SetLineWidth 1,
       Rect x y w h ''FD'',
       SetDrawColor (Some 200) (Some 200) (Some 200),
       SetLineWidth (1 / 2),
       Line x y (x + w) (y + h),
       Line (x + w) y x (y + h),
       SetFillColor (Some 220) (Some 220) (Some 220),
       Rect (x + (w - icon) / 2) (y + (h - icon) / 2) icon (icon * (7 / 10)) ''F'',
       SetTextColor (Some 120) (Some 120) (Some 120),
       SetFontSize fs]
      @ placeholderLines (sp fs msg (w - 10)) 0 (y + (h - icon) / 2 + icon + lh) lh x y w h"
    by (simp add: renderImagePlaceholder_def Let_def icon_def fs_def lh_def)
  have box: "x \<le> x + (w - icon) / 2" "x + (w - icon) / 2 + icon \<le> x + w"
    "y \<le> y + (h - icon) / 2" "y + (h - icon) / 2 + icon * (7 / 10) \<le> y + h"
    "0 \<le> icon * (7 / 10)"
    using half icon by linarith+
  from assms(3) consider
    (lines) "op \<in> set (placeholderLines (sp fs msg (w - 10)) 0
                          (y + (h - icon) / 2 + icon + lh) lh x y w h)"
    | (frame) "op = Rect x y w h ''FD'' \<or> op = Line x y (x + w) (y + h)
               \<or> op = Line (x + w) y x (y + h)"
    | (icon) "op = Rect (x + (w - icon) / 2) (y + (h - icon) / 2) icon (icon * (7 / 10)) ''F''"
    | (state) "op = SetFillColor (Some 248) (Some 249) (Some 250)
               \<or> op = SetDrawColor (Some 220) (Some 220) (Some 220)
               \<or> op = SetLineWidth 1 \<or> op = SetDrawColor (Some 200) (Some 200) (Some 200)
               \<or> op = SetLineWidth (1 / 2) \<or> op = SetFillColor (Some 220) (Some 220) (Some 220)
               \<or> op = SetTextColor (Some 120) (Some 120) (Some 120) \<or> op = SetFontSize fs"
    unfolding ops by auto
  then show ?thesis
  proof cases
    case lines
    from placeholderLines_inBox [OF lh assms(1) tsy lines] show ?thesis .
  next
    case frame
    then show ?thesis using assms(1,2) by auto
  next
    case icon
    then show ?thesis using box \<open>0 \<le> icon\<close> by simp
  next
    case state
    then show ?thesis by auto
  qed
qed

text \<open>
  C3, as the code has it. For every image element whose source is missing, fails to
  load, does not load before the 10000 ms timer, or loads with a zero width or height,
  \<^verbatim>\<open>renderImageElement\<close> returns normally, and what it has drawn is the placeholder: the
  background, the border, the two diagonals of the element's box, an icon, and then the
  first \<open>k \<le> 3\<close> wrapped lines of a message, namely those that fit above the lower
  edge. The message is "No image source" for a missing source, otherwise the element's
  alt text if it has one and "Image failed to load" if not. For a box of non-negative
  width and height everything drawn lies inside the box.
\<close>

theorem image_load_failure_draws_placeholder:
  fixes env :: "string \<Rightarrow> LoadBehaviour" and element :: SlideElement
    and splitTextToSize :: "rat \<Rightarrow> string \<Rightarrow> rat \<Rightarrow> string list"
    and x y width height :: rat
  defines "source \<equiv> content_src (elem_content element)"
  defines "message \<equiv>
             (if source = [] then ''No image source''
              else if content_alt (elem_content element) \<noteq> []
              then content_alt (elem_content element)
              else ''Image failed to load'')"
  defines "ops \<equiv> renderImagePlaceholder splitTextToSize x y width height message"
  assumes failure:
    "source = [] \<or> env source = NeverSettles \<or> (\<exists>t. env source = FailsAt t)
     \<or> (\<exists>t img. env source = LoadsAt t img
                 \<and> (10000 \<le> t \<or> img_width img = 0 \<or> img_height img = 0))"
  shows "renderImageElement env addImageSucceeds splitTextToSize element x y width height = Inr ops
       \<and> take 8 ops =
           [SetFillColor (Some 248) (Some 249) (Some 250),
            SetDrawColor (Some 220) (Some 220) (Some 220),
            SetLineWidth 1,
            Rect x y width height ''FD'',
            SetDrawColor (Some 200) (Some 200) (Some 200),
            SetLineWidth (1 / 2),
            Line x y (x + width) (y + height),
            Line (x + width) y x (y + height)]
       \<and> (\<exists>k\<le>3. textsOf ops
                    = take k (splitTextToSize (max 8 (min 12 (width / 15))) message (width - 10)))
       \<and> (0 \<le> width \<and> 0 \<le> height \<longrightarrow> (\<forall>op \<in> set ops. opInBox x y width height op))"
proof -
  have run: "renderImageElement env addImageSucceeds splitTextToSize element x y width height
               = Inr ops"
  proof (cases "source = []")
    case True
    then show ?thesis
      by (simp add: renderImageElement_def ops_def message_def source_def)
  next
    case False
    with failure have "\<exists>err. imageTryBlock env addImageSucceeds splitTextToSize element
                              x y width height = Inl err"
      by (auto simp: imageTryBlock_def loadImageWithTimeout_def source_def)
    with False show ?thesis
      by (auto simp: renderImageElement_def ops_def message_def source_def)
  qed
  show ?thesis
    using run renderImagePlaceholder_prefix [of splitTextToSize x y width height message]
      renderImagePlaceholder_texts [of splitTextToSize x y width height message]
      renderImagePlaceholder_inBox [of width height _ splitTextToSize x y message]
    by (simp add: ops_def)
qed

theorem image_load_failure_draws_placeholder_witness:
  "content_src (elem_content (imageElement ''blob:media-1'' [])) \<noteq> []
   \<and> neverLoads (content_src (elem_content (imageElement ''blob:media-1'' []))) = NeverSettles
   \<and> renderImageElement neverLoads anyFormat noWrap (imageElement ''blob:media-1'' []) 0 0 200 100
       = Inr [SetFillColor (Some 248) (Some 249) (Some 250),
              SetDrawColor (Some 220) (Some 220) (Some 220), SetLineWidth 1,
              Rect 0 0 200 100 ''FD'',
              SetDrawColor (Some 200) (Some 200) (Some 200), SetLineWidth (1 / 2),
              Line 0 0 200 100, Line 200 0 0 100,
              SetFillColor (Some 220) (Some 220) (Some 220), Rect 85 35 30 21 ''F'',
              SetTextColor (Some 120) (Some 120) (Some 120), SetFontSize 12,
              Text ''Image failed to load'' 100 (397 / 5) (Some ''center'')]"
proof -
  have h: "neverLoads (content_src (elem_content (imageElement ''blob:media-1'' []))) = NeverSettles"
    by (simp add: neverLoads_def)
  have ops: "renderImagePlaceholder noWrap 0 0 200 100 ''Image failed to load''
       = [SetFillColor (Some 248) (Some 249) (Some 250),
              SetDrawColor (Some 220) (Some 220) (Some 220), SetLineWidth 1,
              Rect 0 0 200 100 ''FD'',
              SetDrawColor (Some 200) (Some 200) (Some 200), SetLineWidth (1 / 2),
              Line 0 0 200 100, Line 200 0 0 100,
              SetFillColor (Some 220) (Some 220) (Some 220), Rect 85 35 30 21 ''F'',
              SetTextColor (Some 120) (Some 120) (Some 120), SetFontSize 12,
              Text ''Image failed to load'' 100 (397 / 5) (Some ''center'')]"
    by (simp add: renderImagePlaceholder_def noWrap_def Let_def)
  show ?thesis
    using image_load_failure_draws_placeholder
      [of "imageElement ''blob:media-1'' []" neverLoads anyFormat noWrap 0 0 200 100] h ops
    by (simp add: imageElement_def)
qed

text \<open>
  The claim as stated has the failure message drawn as wrapped text. An image whose
  load times out and whose alt text is its media file name (as \<^verbatim>\<open>extractImageElements\<close>
  sets it) gets the file name as text, not the message of the failure; and in a 30 x 30
  box no text is drawn at all.
\<close>

theorem placeholder_text_is_alt_text_or_absent:
  "loadImageWithTimeout neverLoads ''blob:media-1'' 10000 = Inl ''Image load timeout''
   \<and> renderImageElement neverLoads anyFormat noWrap
         (imageElement ''blob:media-1'' ''image1.png'') 0 0 200 100
       = Inr [SetFillColor (Some 248) (Some 249) (Some 250),
              SetDrawColor (Some 220) (Some 220) (Some 220), SetLineWidth 1,
              Rect 0 0 200 100 ''FD'',
              SetDrawColor (Some 200) (Some 200) (Some 200), SetLineWidth (1 / 2),
              Line 0 0 200 100, Line 200 0 0 100,
              SetFillColor (Some 220) (Some 220) (Some 220), Rect 85 35 30 21 ''F'',
              SetTextColor (Some 120) (Some 120) (Some 120), SetFontSize 12,
              Text ''image1.png'' 100 (397 / 5) (Some ''center'')]
   \<and> renderImageElement neverLoads anyFormat noWrap
         (imageElement ''blob:media-1'' ''image1.png'') 0 0 30 30
       = Inr [SetFillColor (Some 248) (Some 249) (Some 250),
              SetDrawColor (Some 220) (Some 220) (Some 220), SetLineWidth 1,
              Rect 0 0 30 30 ''FD'',
              SetDrawColor (Some 200) (Some 200) (Some 200), SetLineWidth (1 / 2),
              Line 0 0 30 30, Line 30 0 0 30,
              SetFillColor (Some 220) (Some 220) (Some 220),
              Rect (21 / 2) (21 / 2) 9 (63 / 10) ''F'',
              SetTextColor (Some 120) (Some 120) (Some 120), SetFontSize 8]"
  by (simp add: renderImageElement_def imageTryBlock_def loadImageWithTimeout_def
        neverLoads_def imageElement_def renderImagePlaceholder_def noWrap_def Let_def)

subsection \<open>Page count under slide errors\<close>

lemma extractSlides_eq:
  assumes "\<And>f. f \<in> set files \<Longrightarrow> asText f = Inr (xmlOf f)"
  shows "extractSlides asText parse files i slides
           = Inr (slides @ map (\<lambda>(k, f). extractSlide parse k (xmlOf f) f) (List.enumerate i files))"
  using assms by (induction files arbitrary: i slides) simp_all


lemma pagesOf_processSlide:
  "0 < k \<Longrightarrow>
   pagesOf (processSlide r n cs w h pdf k s) = pagesOf pdf @ [slideOps r n cs w h k s]"
  by (simp add: processSlide_def pagesOf_def draw_def addPage_def)

lemma pagesOf_processSlide_first:
  "pagesOf pdf = [[]] \<Longrightarrow> pagesOf (processSlide r n cs w h pdf 0 s) = [slideOps r n cs w h 0 s]"
  by (simp add: processSlide_def pagesOf_def draw_def)

lemma pagesOf_processChunk:
  "0 < chunkStart + i \<Longrightarrow>
   pagesOf (processChunk r n cs w h pdf chunkStart i chunk)
     = pagesOf pdf @ map (\<lambda>(k, s). slideOps r n cs w h k s) (List.enumerate (chunkStart + i) chunk)"
proof (induction chunk arbitrary: pdf i)
  case Nil
  show ?case by simp
next
  case (Cons s rest)
  from Cons.prems have "0 < chunkStart + (i + 1)" by simp
  from Cons.IH [OF this] Cons.prems show ?case
    by (simp add: pagesOf_processSlide)
qed

lemma pagesOf_processChunk_first:
  assumes "pagesOf pdf = [[]]" and "chunk \<noteq> []"
  shows "pagesOf (processChunk r n cs w h pdf 0 0 chunk)
           = map (\<lambda>(k, s). slideOps r n cs w h k s) (List.enumerate 0 chunk)"
proof -
  from assms(2) obtain s rest where chunk: "chunk = s # rest"
    by (cases chunk) auto
  have "pagesOf (processChunk r n cs w h (processSlide r n cs w h pdf 0 s) 0 1 rest)
          = pagesOf (processSlide r n cs w h pdf 0 s)
            @ map (\<lambda>(k, s). slideOps r n cs w h k s) (List.enumerate (0 + 1) rest)"
    by (rule pagesOf_processChunk) simp
  then show ?thesis
    using pagesOf_processSlide_first [OF assms(1)] by (simp add: chunk)
qed

lemma enumerate_take_chunk:
  assumes "a \<le> length xs"
  shows "List.enumerate 0 (take a xs) @ List.enumerate a (take b (drop a xs))
           = List.enumerate 0 (take (a + b) xs)"
proof -
  have "take (a + b) xs = take a xs @ take b (drop a xs)"
    by (simp add: take_add)
  moreover have "length (take a xs) = a"
    using assms by simp
  ultimately show ?thesis
    by (simp add: enumerate_append_eq)
qed

lemma pagesOf_processChunks:
  assumes "slides \<noteq> []"
    and "pagesOf pdf = (if chunkStart = 0 then [[]]
                        else map (\<lambda>(k, s). slideOps r n cs w h k s)
                               (List.enumerate 0 (take chunkStart slides)))"
  shows "pagesOf (processChunks r n cs w h slides pdf chunkStart)
           = map (\<lambda>(k, s). slideOps r n cs w h k s) (List.enumerate 0 slides)"
  using assms
proof (induction r n cs w h slides pdf chunkStart rule: processChunks.induct)
  case (1 r n cs w h slides pdf chunkStart)
  let ?f = "\<lambda>(k, s). slideOps r n cs w h k s"
  show ?case
  proof (cases "chunkStart < length slides")
    case False
    from "1.prems"(1) have "0 < length slides" by simp
    with False have "length slides \<le> chunkStart" "0 < chunkStart"
      by linarith+
    then have "chunkStart \<noteq> 0" "take chunkStart slides = slides"
      by simp_all
    with "1.prems" False show ?thesis
      by (simp add: processChunks.simps [of r n cs w h slides pdf chunkStart] Let_def)
  next
    case True
    define chunk where "chunk = slice slides chunkStart (min (chunkStart + 5) (length slides))"
    define pdf' where "pdf' = processChunk r n cs w h pdf chunkStart 0 chunk"
    have chunk: "chunk = take 5 (drop chunkStart slides)"
      using True by (auto simp: chunk_def slice_def min_def)
    with True have nonempty: "chunk \<noteq> []" by simp
    have pages: "pagesOf pdf' = map ?f (List.enumerate 0 (take (chunkStart + 5) slides))"
    proof (cases "chunkStart = 0")
      case True
      with "1.prems" have "pagesOf pdf = [[]]" by simp
      from pagesOf_processChunk_first [OF this nonempty] True show ?thesis
        by (simp add: pdf'_def chunk)
    next
      case False
      then have "pagesOf pdf' = pagesOf pdf @ map ?f (List.enumerate chunkStart chunk)"
        using pagesOf_processChunk [where chunkStart = chunkStart and i = 0 and r = r and n = n
          and cs = cs and w = w and h = h and pdf = pdf and chunk = chunk] by (simp add: pdf'_def)
      also have "\<dots> = map ?f (List.enumerate 0 (take chunkStart slides)
                                @ List.enumerate chunkStart (take 5 (drop chunkStart slides)))"
        using "1.prems" False by (simp add: chunk)
      also have "\<dots> = map ?f (List.enumerate 0 (take (chunkStart + 5) slides))"
        using True by (simp only: enumerate_take_chunk [of chunkStart slides 5] less_imp_le)
      finally show ?thesis .
    qed
    have pages': "pagesOf pdf' =
        (if chunkStart + 5 = 0 then [[]]
         else map ?f (List.enumerate 0 (take (chunkStart + 5) slides)))"
      using pages by simp
    have "pagesOf (processChunks r n cs w h slides pdf' (chunkStart + 5))
            = map ?f (List.enumerate 0 slides)"
      using "1.IH" [OF refl refl True refl refl "1.prems"(1)] pages'
      unfolding pdf'_def chunk_def by blast
    then show ?thesis
      using True
      by (simp add: processChunks.simps [of r n cs w h slides pdf chunkStart] Let_def
            chunk_def pdf'_def)
  qed
qed

lemma pagesOf_newPdf: "pagesOf newPdf = [[]]"
  by (simp add: pagesOf_def newPdf_def)

lemma convert_pages:
  assumes "slidesToProcess cs slides \<noteq> []"
  shows "\<exists>pdf. convertPowerPointToPDF r n cs (Some (slides, metadata)) = Inr pdf
             \<and> pagesOf pdf
                 = map (\<lambda>(k, s). slideOps r n cs (fst (pdfDimensions cs metadata))
                                    (snd (pdfDimensions cs metadata)) k s)
                       (List.enumerate 0 (slidesToProcess cs slides))"
proof -
  from assms have "slides \<noteq> []"
    by (auto simp: slidesToProcess_def)
  then show ?thesis
    using pagesOf_processChunks [OF assms, where pdf = newPdf and chunkStart = 0
        and r = r and n = n and cs = cs] pagesOf_newPdf
    by (simp add: convertPowerPointToPDF_def split_beta)
qed

text \<open>
  What the code does when every slide file can be read: if parsing some slide throws, or
  rendering some selected slide throws, extraction yields one slide for every slide
  file, the parsed slide where parsing succeeded and, exactly where it threw, the
  fallback slide, whose only element is the text "Error loading slide content"; the
  conversion ends normally; the document has as many pages as slides were selected; and
  page \<open>k\<close> holds what rendering of the \<open>k\<close>-th selected slide drew, followed by the gray
  error placeholder "Error rendering slide k+1" exactly where that rendering threw
  (elsewhere by the watermark calls, if a watermark is set).
\<close>

lemma pages_kept_when_parsing_or_rendering_throws:
  fixes asText :: "string \<Rightarrow> string + string"
    and parseSlideXml :: "string \<Rightarrow> string \<Rightarrow> nat \<Rightarrow> string + SlideData"
    and renderSlideToPDF :: "SlideData \<Rightarrow> PdfOp list \<times> bool"
    and cs :: ConversionSettings and slideFiles :: "string list"
    and metadata :: PresentationMetadata
  defines "pdfWidth \<equiv> fst (pdfDimensions cs metadata)"
    and "pdfHeight \<equiv> snd (pdfDimensions cs metadata)"
  assumes reads: "\<And>f. f \<in> set slideFiles \<Longrightarrow> asText f = Inr (xmlOf f)"
  assumes throws:
    "(\<exists>i<length slideFiles.
        isl (parseSlideXml (xmlOf (slideFiles ! i)) (slideFiles ! i) (i + 1)))
     \<or> (\<exists>slide\<in>set (slidesToProcess cs
                         (storedSlides (extractSlides asText parseSlideXml slideFiles 0 []))).
            snd (renderSlideToPDF slide))"
  shows "\<exists>slides pdf.
           extractSlides asText parseSlideXml slideFiles 0 [] = Inr slides
         \<and> length slides = length slideFiles
         \<and> (\<forall>i<length slideFiles.
               slides ! i
                 = (case parseSlideXml (xmlOf (slideFiles ! i)) (slideFiles ! i) (i + 1) of
                      Inr slideData \<Rightarrow> slideData
                    | Inl err \<Rightarrow> fallbackSlide (i + 1)))
         \<and> (\<forall>i. map (content_text \<circ> elem_content) (slide_elements (fallbackSlide i))
                   = [''Error loading slide content''])
         \<and> convertPowerPointToPDF renderSlideToPDF watermarkCalls cs (Some (slides, metadata))
             = Inr pdf
         \<and> length (pagesOf pdf) = length (slidesToProcess cs slides)
         \<and> (\<forall>k<length (slidesToProcess cs slides).
               pagesOf pdf ! k
                 = fst (renderSlideToPDF (slidesToProcess cs slides ! k))
                   @ (if snd (renderSlideToPDF (slidesToProcess cs slides ! k))
                      then errorPlaceholder k pdfWidth pdfHeight
                      else if truthyString (watermark cs)
                      then addWatermark watermarkCalls (the (watermark cs)) pdfWidth pdfHeight
                      else []))"
proof -
  define slides where
    "slides = map (\<lambda>(k, f). extractSlide parseSlideXml k (xmlOf f) f) (List.enumerate 0 slideFiles)"
  define selected where "selected = slidesToProcess cs slides"
  have extraction: "extractSlides asText parseSlideXml slideFiles 0 [] = Inr slides"
    using extractSlides_eq [of slideFiles asText xmlOf parseSlideXml 0 "[]"] reads
    by (simp add: slides_def)
  have len: "length slides = length slideFiles"
    by (simp add: slides_def)
  have nth: "slides ! i
               = (case parseSlideXml (xmlOf (slideFiles ! i)) (slideFiles ! i) (i + 1) of
                    Inr slideData \<Rightarrow> slideData
                  | Inl err \<Rightarrow> fallbackSlide (i + 1))"
    if "i < length slideFiles" for i
    using that by (simp add: slides_def nth_enumerate_eq extractSlide_def)
  have errorText: "map (content_text \<circ> elem_content) (slide_elements (fallbackSlide i))
                = [''Error loading slide content'']" for i
    by (simp add: fallbackSlide_def)
  have nonempty: "selected \<noteq> []"
    using throws
  proof
    assume "\<exists>i<length slideFiles.
              isl (parseSlideXml (xmlOf (slideFiles ! i)) (slideFiles ! i) (i + 1))"
    then obtain i where i: "i < length slideFiles"
      "isl (parseSlideXml (xmlOf (slideFiles ! i)) (slideFiles ! i) (i + 1))"
      by blast
    with nth [OF i(1)] have "slides ! i = fallbackSlide (i + 1)"
      by (auto simp: isl_def)
    with i(1) len have "fallbackSlide (i + 1) \<in> set slides"
      by (metis nth_mem)
    then have "fallbackSlide (i + 1) \<in> set selected"
      by (simp add: selected_def slidesToProcess_def fallbackSlide_def)
    then show ?thesis by auto
  next
    assume "\<exists>slide\<in>set (slidesToProcess cs
                         (storedSlides (extractSlides asText parseSlideXml slideFiles 0 []))).
              snd (renderSlideToPDF slide)"
    then show ?thesis
      by (auto simp: extraction storedSlides_def selected_def)
  qed
  from convert_pages [of cs slides renderSlideToPDF watermarkCalls metadata] nonempty
  obtain pdf where pdf:
    "convertPowerPointToPDF renderSlideToPDF watermarkCalls cs (Some (slides, metadata)) = Inr pdf"
    "pagesOf pdf = map (\<lambda>(k, s). slideOps renderSlideToPDF watermarkCalls cs pdfWidth pdfHeight k s)
                       (List.enumerate 0 selected)"
    unfolding selected_def pdfWidth_def pdfHeight_def by blast
  have page: "pagesOf pdf ! k
                = fst (renderSlideToPDF (selected ! k))
                  @ (if snd (renderSlideToPDF (selected ! k))
                     then errorPlaceholder k pdfWidth pdfHeight
                     else if truthyString (watermark cs)
                     then addWatermark watermarkCalls (the (watermark cs)) pdfWidth pdfHeight
                     else [])"
    if "k < length selected" for k
    using that by (simp add: pdf(2) nth_enumerate_eq slideOps_def split_beta)
  have count: "length (pagesOf pdf) = length selected"
    by (simp add: pdf(2))
  show ?thesis
    using extraction len nth errorText pdf(1) count page
    unfolding selected_def by blast
qed

text \<open>
  Ten slide files, all readable, the seventh cannot be parsed, rendering of the third
  slide throws: ten slides with the fallback in seventh place, ten pages, page 3 ends in
  the error placeholder.
\<close>

lemma ten_slides_seventh_fallback:
  "map_sum id (map slide_id) (extractSlides readAll parseAllButSeven tenFiles 0 [])
     = Inr [''slide-1'', ''slide-2'', ''slide-3'', ''slide-4'', ''slide-5'',
            ''slide-6'', ''slide-7'', ''slide-8'', ''slide-9'', ''slide-10'']
   \<and> storedSlides (extractSlides readAll parseAllButSeven tenFiles 0 []) ! 6 = fallbackSlide 7"
  by code_simp

lemma ten_pages:
  "map_sum id pagesOf
     (convertPowerPointToPDF renderAllButThree 6 initialSettings
        (Some (storedSlides (extractSlides readAll parseAllButSeven tenFiles 0 []),
               exampleMetadata)))
   = Inr [[Text ''slide-1'' 0 0 None], [Text ''slide-2'' 0 0 None],
          [Text ''slide-3'' 0 0 None, SetFillColor (Some 245) (Some 245) (Some 245),
           Rect 0 0 (14755 / 9) (14875 / 12) ''F'',
           SetTextColor (Some 100) (Some 100) (Some 100), SetFontSize 16,
           Text ''Error rendering slide 3'' (14755 / 18) (14875 / 24) (Some ''center'')],
          [Text ''slide-4'' 0 0 None], [Text ''slide-5'' 0 0 None],
          [Text ''slide-6'' 0 0 None], [Text ''slide-7'' 0 0 None],
          [Text ''slide-8'' 0 0 None], [Text ''slide-9'' 0 0 None],
          [Text ''slide-10'' 0 0 None]]"
  by code_simp



subsection \<open>Style inheritance\<close>

lemma parseColor_red: "parseColor ''#ff0000'' = rgbColor 1 0 0"
  by code_simp

lemma parseColor_black_hex: "parseColor ''#000000'' = rgbColor 0 0 0"
  by code_simp

lemma parseColor_black: "parseColor ''black'' = rgbColor 0 0 0"
  by code_simp

lemma is_black:
  "(col_r c \<noteq> Some 0 \<or> col_g c \<noteq> Some 0 \<or> col_b c \<noteq> Some 0) = (c \<noteq> rgbColor 0 0 0)"
  by (cases c) (auto simp: rgbColor_def)

text \<open>
  C8, as the code has it. For a node with an inherited style the effective style takes
  the node's colour when it is not black, its font size when it is not 12, its font
  family when it is not Arial, and the inherited value otherwise; a flag is set when the
  node or the inherited style sets it. A node with no colour of its own inherits the
  colour; a node with colour \<^verbatim>\<open>#ff0000\<close> gets that colour whatever is inherited; a node
  with colour \<^verbatim>\<open>#000000\<close> gets the inherited colour.
\<close>

theorem effective_style_merges_by_default_values:
  fixes element :: HtmlElement and inherited :: TextStyle
  defines "own \<equiv> getTextStyle element"
  defines "effective \<equiv> effectiveStyle own (Some inherited)"
  shows "ts_color effective
           = (if ts_color own \<noteq> rgbColor 0 0 0 then ts_color own else ts_color inherited)
       \<and> ts_fontSize effective
           = (if ts_fontSize own \<noteq> 12 then ts_fontSize own else ts_fontSize inherited)
       \<and> ts_fontFamily effective
           = (if ts_fontFamily own \<noteq> ''Arial'' then ts_fontFamily own
              else ts_fontFamily inherited)
       \<and> ts_bold effective = (ts_bold own \<or> ts_bold inherited)
       \<and> ts_italic effective = (ts_italic own \<or> ts_italic inherited)
       \<and> ts_underline effective = (ts_underline own \<or> ts_underline inherited)
       \<and> (\<not> truthyString (el_computedColor element) \<and> el_inlineColor element = []
            \<longrightarrow> ts_color effective = ts_color inherited)
       \<and> (colorString element = ''#ff0000'' \<longrightarrow> ts_color effective = rgbColor 1 0 0)
       \<and> (colorString element = ''#000000'' \<longrightarrow> ts_color effective = ts_color inherited)"
proof -
  have "ts_color effective
           = (if col_r (ts_color own) \<noteq> Some 0 \<or> col_g (ts_color own) \<noteq> Some 0
                 \<or> col_b (ts_color own) \<noteq> Some 0
              then ts_color own else ts_color inherited)"
    by (simp add: effective_def effectiveStyle_def)
  then have color: "ts_color effective
           = (if ts_color own \<noteq> rgbColor 0 0 0 then ts_color own else ts_color inherited)"
    by (simp only: is_black)
  have cur: "ts_color own = parseColor (colorString element)"
    by (simp add: own_def getTextStyle_def)
  have unset: "ts_color effective = ts_color inherited"
    if "\<not> truthyString (el_computedColor element) \<and> el_inlineColor element = []"
    using that by (simp add: color cur colorString_def parseColor_black)
  have red: "ts_color effective = rgbColor 1 0 0" if "colorString element = ''#ff0000''"
    using that by (simp add: color cur parseColor_red rgbColor_def)
  have black: "ts_color effective = ts_color inherited" if "colorString element = ''#000000''"
    using that by (simp add: color cur parseColor_black_hex)
  have size: "ts_fontSize effective
           = (if ts_fontSize own \<noteq> 12 then ts_fontSize own else ts_fontSize inherited)"
    and family: "ts_fontFamily effective
           = (if ts_fontFamily own \<noteq> ''Arial'' then ts_fontFamily own
              else ts_fontFamily inherited)"
    and flags: "ts_bold effective = (ts_bold own \<or> ts_bold inherited)"
      "ts_italic effective = (ts_italic own \<or> ts_italic inherited)"
      "ts_underline effective = (ts_underline own \<or> ts_underline inherited)"
    by (simp_all add: effective_def effectiveStyle_def)
  show ?thesis
    by (intro conjI impI) (fact color size family flags | erule unset red black)+
qed

theorem effective_style_merges_by_default_values_witness:
  "colorString (spanWithColor ''#ff0000'') = ''#ff0000''
   \<and> ts_color (effectiveStyle (getTextStyle (spanWithColor ''#ff0000'')) (Some blueParentStyle))
       = rgbColor 1 0 0
   \<and> \<not> truthyString (el_computedColor (spanWithColor []))
   \<and> el_inlineColor (spanWithColor []) = []
   \<and> ts_color (effectiveStyle (getTextStyle (spanWithColor [])) (Some blueParentStyle))
       = rgbColor 0 0 1
   \<and> ts_fontSize (effectiveStyle (getTextStyle (spanWithColor [])) (Some blueParentStyle)) = 20"
proof -
  have h1: "colorString (spanWithColor ''#ff0000'') = ''#ff0000''"
    by (simp add: colorString_def spanWithColor_def truthyString_def)
  have h2: "\<not> truthyString (el_computedColor (spanWithColor [])) \<and> el_inlineColor (spanWithColor []) = []"
    by (simp add: spanWithColor_def truthyString_def)
  have size: "ts_fontSize (getTextStyle (spanWithColor [])) = 12"
    by (simp add: getTextStyle_def spanWithColor_def defaultTextStyle_def)
  note red = effective_style_merges_by_default_values [of "spanWithColor ''#ff0000''" blueParentStyle]
  note plain = effective_style_merges_by_default_values [of "spanWithColor []" blueParentStyle]
  from red h1 have c1:
    "ts_color (effectiveStyle (getTextStyle (spanWithColor ''#ff0000'')) (Some blueParentStyle))
       = rgbColor 1 0 0"
    by blast
  from plain h2 have c2:
    "ts_color (effectiveStyle (getTextStyle (spanWithColor [])) (Some blueParentStyle))
       = ts_color blueParentStyle"
    by blast
  from plain size have c3:
    "ts_fontSize (effectiveStyle (getTextStyle (spanWithColor [])) (Some blueParentStyle))
       = ts_fontSize blueParentStyle"
    by simp
  show ?thesis
    using h1 h2 c1 c2 c3 by (simp add: blueParentStyle_def)
qed

text \<open>
  The claim as stated gives every field that is set on the node priority over the
  inherited value. A node whose inline colour is set to \<^verbatim>\<open>#000000\<close>, under a parent with
  blue text, gets blue.
\<close>

theorem explicit_black_does_not_override:
  "el_inlineColor (spanWithColor ''#000000'') = ''#000000''
   \<and> ts_color (getTextStyle (spanWithColor ''#000000'')) = rgbColor 0 0 0
   \<and> ts_color (effectiveStyle (getTextStyle (spanWithColor ''#000000'')) (Some blueParentStyle))
       = rgbColor 0 0 1"
  by (simp add: spanWithColor_def getTextStyle_def colorString_def truthyString_def
        parseColor_black_hex effectiveStyle_def blueParentStyle_def rgbColor_def)

end
